theory Spec2Isabelle
  imports Complex_Main "HOL-Library.AList"
begin

section \<open>Tensors and errors\<close>

text \<open>
  The program builds Theano computations over dense tensors. A tensor is kept as nested
  lists, outermost axis first: a matrix is the list of its rows, a 3-tensor the list of
  its matrices. Floating-point entries are idealised as reals, integer entries
  (token indices) are \<open>int\<close>.

  What makes the Python raise is a value of \<open>error\<close>: \<open>ValueError\<close> is Theano's
  dimension mismatch of an elementwise operation or of a stack, \<open>IndexError\<close> an index
  out of bounds, \<open>UnboundLocalError\<close> the use of a local variable no branch assigned,
  \<open>AssertionError\<close> a failed \<open>assert\<close>. The last
  two values are errors of the spec's taxonomy (section 7): they are what the sequence
  generator modelled from the spec below refuses its inputs with, \<open>ShapeMismatchError\<close> for
  paired tensors that disagree in length or batch size, \<open>DegenerateInputError\<close> for a
  source item that reaches the attention with every position masked.
\<close>

datatype error = ValueError | IndexError | UnboundLocalError | AssertionError
  | ShapeMismatchError | DegenerateInputError

type_synonym matrix = "real list list"
type_synonym imatrix = "int list list"
type_synonym tensor3 = "real list list list"

text \<open>Two matrices have the same shape: as many rows, and rows of the same lengths.\<close>

definition same_shape :: "'a list list \<Rightarrow> 'b list list \<Rightarrow> bool" where
  "same_shape a b = list_all2 (\<lambda>r s. length r = length s) a b"

text \<open>\<open>a * b\<close> of two matrices: the elementwise product, refused when the shapes differ.\<close>

definition mul_elemwise :: "matrix \<Rightarrow> matrix \<Rightarrow> error + matrix" where
  "mul_elemwise a b =
     (if same_shape a b then Inr (map2 (\<lambda>r s. map2 (*) r s) a b) else Inl ValueError)"

text \<open>\<open>m.sum()\<close>: the sum of all entries.\<close>

definition sum_all :: "matrix \<Rightarrow> real" where
  "sum_all m = sum_list (map sum_list m)"

section \<open>The decoder (model.py)\<close>

subsection \<open>LookupFeedbackWMT15\<close>

text \<open>
  The feedback brick \<open>LookupFeedbackWMT15(vocab_size, embedding_dim)\<close>: its lookup table
  \<open>W\<close> (one row per output symbol; the library allocates it with \<open>feedback_dim\<close>
  columns), \<open>feedback_dim\<close>, and \<open>output_dim\<close>, which the readout sets to the emitter's
  output dimension.
\<close>

record lookup_feedback =
  lookup_W :: matrix
  feedback_dim :: nat
  output_dim :: nat

text \<open>
  \<open>LookupTable.apply\<close> is \<open>W[indices]\<close>: an index counts from the end when negative and
  raises when out of bounds.
\<close>

definition lookup_apply :: "matrix \<Rightarrow> int list \<Rightarrow> error + matrix" where
  "lookup_apply W indices =
     (let n = int (length W) in
      if list_all (\<lambda>i. - n \<le> i \<and> i < n) indices
      then Inr (map (\<lambda>i. W ! nat (if i < 0 then n + i else i)) indices)
      else Inl IndexError)"

text \<open>
  An integer tensor is its shape and its entries in row-major order (what \<open>flatten\<close>
  gives). The result of \<open>feedback\<close> has one more axis: it is kept as its shape and, for
  every entry of \<open>outputs\<close> in the same order, the vector along the new last axis
  (\<open>lookup_flat\<close> before the final reshape, which moves no entry).
\<close>

type_synonym itensor = "nat list \<times> int list"

definition feedback :: "lookup_feedback \<Rightarrow> itensor \<Rightarrow> error + nat list \<times> matrix" where
  "feedback brick outputs =
     (if output_dim brick \<noteq> 0 then Inl AssertionError
      else
        let shp = fst outputs;
            outputs_flat = snd outputs;
            outputs_flat_zeros = map (\<lambda>v. if v < 0 then 0 else v) outputs_flat
        in case lookup_apply (lookup_W brick) outputs_flat_zeros of
             Inl e \<Rightarrow> Inl e
           | Inr looked \<Rightarrow>
               if list_all (\<lambda>row. length row = feedback_dim brick) looked
               then Inr (shp @ [feedback_dim brick],
                         map2 (\<lambda>v row. if v < 0 then replicate (feedback_dim brick) 0 else row)
                           outputs_flat looked)
               else Inl ValueError)"

text \<open>
  The readout's emitter is \<open>SoftmaxEmitter(initial_output=-1)\<close>: the outputs before the
  first step are this value for every batch item.
\<close>

definition initial_output :: int where
  "initial_output = - 1"

definition initial_outputs :: "nat \<Rightarrow> itensor" where
  "initial_outputs batch_size = ([batch_size], replicate batch_size initial_output)"

subsection \<open>GRUInitialState\<close>

text \<open>
  The transition \<open>GRUInitialState(attended_dim, dim)\<close> with its \<open>initial_transformer\<close>,
  \<open>MLP(activations=[Tanh()], dims=[attended_dim, dim])\<close>: one linear layer, weights
  \<open>init_W\<close> (\<open>attended_dim\<close> rows, \<open>dim\<close> columns) and biases \<open>init_b\<close>, followed by tanh.
\<close>

record gru_initial_state =
  attended_dim :: nat
  state_dim :: nat
  init_W :: matrix
  init_b :: "real list"

text \<open>\<open>x[-k:]\<close>: the last \<open>k\<close> entries, all of them when \<open>k\<close> is 0 or exceeds the length.\<close>

definition last_features :: "nat \<Rightarrow> 'a list \<Rightarrow> 'a list" where
  "last_features k xs = (if k = 0 then xs else drop (length xs - k) xs)"

text \<open>
  The linear layer on one batch row, \<open>dot(x, W) + b\<close>; the product is refused when
  \<open>x\<close> has not as many entries as \<open>W\<close> has rows.
\<close>

definition linear_apply :: "matrix \<Rightarrow> real list \<Rightarrow> real list \<Rightarrow> error + real list" where
  "linear_apply W b x =
     (if length x = length W \<and> list_all (\<lambda>row. length row = length b) W
      then Inr (map (\<lambda>j. sum_list (map2 (\<lambda>xi row. xi * row ! j) x W) + b ! j) [0..<length b])
      else Inl ValueError)"

fun collect :: "(error + 'a) list \<Rightarrow> error + 'a list" where
  "collect [] = Inr []"
| "collect (Inl e # rs) = Inl e"
| "collect (Inr v # rs) = (case collect rs of Inl e \<Rightarrow> Inl e | Inr vs \<Rightarrow> Inr (v # vs))"

definition mlp_apply :: "gru_initial_state \<Rightarrow> matrix \<Rightarrow> error + matrix" where
  "mlp_apply tr xs =
     (case collect (map (linear_apply (init_W tr) (init_b tr)) xs) of
        Inl e \<Rightarrow> Inl e
      | Inr ys \<Rightarrow> Inr (map (map tanh) ys))"

text \<open>
  \<open>GRUInitialState.initial_states\<close>: \<open>attended[0, :, -attended_dim:]\<close> through the
  initial transformer. Position 0 of an empty \<open>attended\<close> is out of bounds.
\<close>

definition initial_states :: "gru_initial_state \<Rightarrow> nat \<Rightarrow> tensor3 \<Rightarrow> error + matrix" where
  "initial_states tr batch_size attended =
     (case attended of
        [] \<Rightarrow> Inl IndexError
      | attended_0 # _ \<Rightarrow> mlp_apply tr (map (last_features (attended_dim tr)) attended_0))"

subsection \<open>Decoder\<close>

text \<open>
  The sequence generator is a brick of the Blocks library; the repository only composes
  it. Its teacher-forced \<open>cost_matrix\<close> is therefore a parameter of the model: a function
  of the keyword arguments \<open>mask\<close>, \<open>outputs\<close>, \<open>attended\<close> and \<open>attended_mask\<close> (in this
  order) that either raises or returns the (time, batch) matrix of per-step costs.
\<close>

type_synonym cost_matrix_fn =
  "matrix \<Rightarrow> imatrix \<Rightarrow> tensor3 \<Rightarrow> matrix \<Rightarrow> error + matrix"

text \<open>
  \<open>Decoder.cost\<close>. The three matrices arrive batch-major and are transposed to
  time-major. \<open>target_sentence_mask.shape[1]\<close> is read after the transposition, so it is
  the first dimension of the argument: the number of batch items. (For an empty batch
  Theano's float division by zero gives nan; the theorems below are about non-empty
  batches.)
\<close>

definition Decoder_cost ::
  "cost_matrix_fn \<Rightarrow> tensor3 \<Rightarrow> matrix \<Rightarrow> imatrix \<Rightarrow> matrix \<Rightarrow> error + real" where
  "Decoder_cost cost_matrix representation' source_sentence_mask
       target_sentence target_sentence_mask =
     (let source_sentence_mask_T = transpose source_sentence_mask;
          target_sentence_T = transpose target_sentence;
          target_sentence_mask_T = transpose target_sentence_mask
      in case cost_matrix target_sentence_mask_T target_sentence_T
                representation' source_sentence_mask_T of
           Inl e \<Rightarrow> Inl e
         | Inr cost \<Rightarrow>
             (case mul_elemwise cost target_sentence_mask_T of
                Inl e \<Rightarrow> Inl e
              | Inr masked \<Rightarrow>
                  Inr (sum_all masked / real (length target_sentence_mask))))"

subsection \<open>The sequence generator\<close>

text \<open>
  Modelled from the spec: the teacher-forced cost computation of the sequence generator
  and its content-based attention. Both are bricks of the Blocks library, which
  \<open>Decoder.__init__\<close> only constructs (\<open>SequenceContentAttention\<close>, \<open>AttentionRecurrent\<close>,
  \<open>Readout\<close>, \<open>SequenceGenerator\<close>); their code is not among the repository's sources.
  They are written here from sections 4.4, 4.6 and 7 of the spec.

  What the generator learns stays abstract: the unnormalised score of a state against the
  representation at one source position (\<open>energy\<close>), the recurrent cell's new state from
  the state, the feedback and the context (\<open>compute_states\<close>), and the negative
  log-likelihood that the readout, given state, previous feedback and context, assigns to a
  target symbol (\<open>readout_cost\<close>). \<open>representation_dim\<close> is the number of features of a
  representation vector, and so of a context.
\<close>

record generator_bricks =
  energy :: "real list \<Rightarrow> real list \<Rightarrow> real"
  compute_states :: "real list \<Rightarrow> real list \<Rightarrow> real list \<Rightarrow> real list"
  readout_cost :: "real list \<Rightarrow> real list \<Rightarrow> real list \<Rightarrow> int \<Rightarrow> real"
  representation_dim :: nat

text \<open>
  Modelled from the spec: the masked softmax of the attention (section 4.4), for one
  batch item, from the scores and the source mask of its positions. Positions with mask 0
  are left out of the normalisation denominator and get weight exactly 0; the weights of
  the others are their exponentiated scores over the denominator, so they sum to 1. When
  every position of the item is masked there is nothing to normalise by, and the component
  fails with \<open>DegenerateInputError\<close> (section 7).
\<close>

definition compute_weights :: "real list \<Rightarrow> real list \<Rightarrow> error + real list" where
  "compute_weights scores source_mask =
     (if list_all (\<lambda>m. m = 0) source_mask then Inl DegenerateInputError
      else
        let denominator =
              sum_list (map2 (\<lambda>e m. if m = 0 then 0 else exp e) scores source_mask)
        in Inr (map2 (\<lambda>e m. if m = 0 then 0 else exp e / denominator) scores source_mask))"

text \<open>
  Modelled from the spec: the context (glimpse) of one batch item (section 4.4), the sum
  of its representation vectors weighted by the attention weights of the current state.
\<close>

definition take_glimpses ::
  "generator_bricks \<Rightarrow> real list \<Rightarrow> matrix \<Rightarrow> real list \<Rightarrow> error + real list" where
  "take_glimpses br states attended attended_mask =
     (case compute_weights (map (energy br states) attended) attended_mask of
        Inl e \<Rightarrow> Inl e
      | Inr weights \<Rightarrow>
          Inr (map (\<lambda>j. sum_list (map2 (\<lambda>w a. w * a ! j) weights attended))
                 [0..<representation_dim br]))"

text \<open>
  Modelled from the spec: the teacher-forced pass of one batch item over its targets, each
  with its feedback (cost mode, section 4.6). At every step the context is computed from
  the current state against the whole source representation of the item, the cost of the
  target is its negative log-likelihood under the readout of the state, the feedback of
  the previous target (\<open>previous\<close>; of the initial outputs at the first step) and the
  context, and the recurrent cell moves on, driven by the target's feedback and the
  context.
\<close>

fun item_costs ::
  "generator_bricks \<Rightarrow> matrix \<Rightarrow> real list \<Rightarrow> real list \<Rightarrow> real list
     \<Rightarrow> (int \<times> real list) list \<Rightarrow> error + real list" where
  "item_costs br attended attended_mask states previous [] = Inr []"
| "item_costs br attended attended_mask states previous ((target, fb) # rest) =
     (case take_glimpses br states attended attended_mask of
        Inl e \<Rightarrow> Inl e
      | Inr glimpse \<Rightarrow>
          (case item_costs br attended attended_mask
                  (compute_states br states fb glimpse) fb rest of
             Inl e \<Rightarrow> Inl e
           | Inr costs \<Rightarrow> Inr (readout_cost br states previous glimpse target # costs)))"

text \<open>Column \<open>b\<close> of a time-major tensor: what belongs to batch item \<open>b\<close>.\<close>

definition column :: "nat \<Rightarrow> 'a list list \<Rightarrow> 'a list" where
  "column b m = map (\<lambda>r. r ! b) m"

text \<open>
  Modelled from the spec: a helper of the cost computation below. The targets of batch
  item \<open>b\<close> with their feedback vectors; the feedback of the (time, batch) entry
  \<open>(u, b)\<close> is at the row-major position \<open>u * batch_size + b\<close>.
\<close>

definition item_targets ::
  "nat \<Rightarrow> nat \<Rightarrow> imatrix \<Rightarrow> matrix \<Rightarrow> (int \<times> real list) list" where
  "item_targets b batch_size outputs fb =
     map (\<lambda>u. (outputs ! u ! b, fb ! (u * batch_size + b))) [0..<length outputs]"

text \<open>
  Modelled from the spec: \<open>SequenceGenerator.cost_matrix\<close>, cost mode of section 4.6 up to
  the (time, batch) cost matrix; the target mask is applied to that matrix, and the sum
  divided, by \<open>Decoder.cost\<close> above. Paired tensors that disagree in length or batch size
  are refused (section 7): the mask and the targets, the representation and the source
  mask, and the batch sizes of targets and representation. The feedback of the targets and
  of the initial outputs and the initial states come from the two bricks of this
  repository defined above, which the decoder plugs into the generator. The batch items
  are independent: each has its own pass, and entry \<open>(t, b)\<close> of the result is the cost
  of step \<open>t\<close> of item \<open>b\<close>.
\<close>

definition sequence_generator_cost_matrix ::
  "lookup_feedback \<Rightarrow> gru_initial_state \<Rightarrow> generator_bricks \<Rightarrow> cost_matrix_fn" where
  "sequence_generator_cost_matrix fbk tr br mask' outputs attended attended_mask =
     (let batch_size = (case outputs of [] \<Rightarrow> 0 | r # _ \<Rightarrow> length r);
          n_steps = length outputs
      in if \<not> same_shape mask' outputs \<or> \<not> same_shape attended attended_mask
            \<or> \<not> list_all (\<lambda>r. length r = batch_size) outputs
            \<or> \<not> list_all (\<lambda>a. length a = batch_size) attended
         then Inl ShapeMismatchError
         else
           case feedback fbk ([n_steps, batch_size], concat outputs) of
             Inl e \<Rightarrow> Inl e
           | Inr fbs \<Rightarrow>
           case initial_states tr batch_size attended of
             Inl e \<Rightarrow> Inl e
           | Inr states \<Rightarrow>
           case feedback fbk (initial_outputs batch_size) of
             Inl e \<Rightarrow> Inl e
           | Inr fb0 \<Rightarrow>
           case collect (map (\<lambda>b.
                   item_costs br (column b attended) (column b attended_mask)
                     (states ! b) (snd fb0 ! b)
                     (item_targets b batch_size outputs (snd fbs)))
                 [0..<batch_size]) of
             Inl e \<Rightarrow> Inl e
           | Inr per_item \<Rightarrow>
               Inr (map (\<lambda>t. map (\<lambda>costs. costs ! t) per_item) [0..<n_steps]))"

text \<open>
  Modelled from the spec: \<open>SequenceGenerator.generate\<close>, generate mode of section 4.6. It
  is library code as well. Starting from the transition's initial states and the emitter's
  initial outputs, one step (attention, readout, emission, feedback, transition) is applied
  \<open>n_steps\<close> times, each to the states and outputs the step before returned, and what
  every step returns is collected along a new first axis. The run has no other end than
  the step count. The step itself is a parameter; it is given the step number, which
  stands for the position in the emitter's random stream.
\<close>

type_synonym generate_step =
  "nat \<Rightarrow> matrix \<Rightarrow> itensor \<Rightarrow> tensor3 \<Rightarrow> matrix \<Rightarrow> matrix \<times> itensor"

fun scan ::
  "generate_step \<Rightarrow> nat \<Rightarrow> nat \<Rightarrow> matrix \<Rightarrow> itensor \<Rightarrow> tensor3 \<Rightarrow> matrix
     \<Rightarrow> (matrix \<times> itensor) list" where
  "scan step 0 t states outputs attended attended_mask = []"
| "scan step (Suc n) t states outputs attended attended_mask =
     (case step t states outputs attended attended_mask of
        (states', outputs') \<Rightarrow>
          (states', outputs') # scan step n (Suc t) states' outputs' attended attended_mask)"

definition sequence_generator_generate ::
  "gru_initial_state \<Rightarrow> generate_step \<Rightarrow> nat \<Rightarrow> nat \<Rightarrow> tensor3 \<Rightarrow> matrix
     \<Rightarrow> error + (matrix \<times> itensor) list" where
  "sequence_generator_generate tr step n_steps batch_size attended attended_mask =
     (case initial_states tr batch_size attended of
        Inl e \<Rightarrow> Inl e
      | Inr states \<Rightarrow>
          Inr (scan step n_steps 0 states (initial_outputs batch_size) attended attended_mask))"

subsection \<open>Decoder.generate and the decoder's bricks\<close>

text \<open>
  \<open>Decoder.generate\<close>. \<open>representation.shape[1]\<close> is the length of the matrices of the
  3-tensor; an empty 3-tensor has no matrix to read it from, and fails at position 0 of
  \<open>initial_states\<close> whatever the batch size.
\<close>

definition Decoder_generate ::
  "gru_initial_state \<Rightarrow> generate_step \<Rightarrow> tensor3 \<Rightarrow> error + (matrix \<times> itensor) list" where
  "Decoder_generate tr step representation' =
     (let length' = length representation';
          batch_size = (case representation' of [] \<Rightarrow> 0 | r # _ \<Rightarrow> length r)
      in sequence_generator_generate tr step (2 * length') batch_size representation'
           (transpose (replicate batch_size (replicate length' 1))))"

text \<open>The generated token sequence: the outputs of the steps, one row of tokens per step.\<close>

definition generated_outputs :: "(matrix \<times> itensor) list \<Rightarrow> int list list" where
  "generated_outputs results = map (\<lambda>r. snd (snd r)) results"

text \<open>
  \<open>Decoder.__init__\<close>, the two bricks of this repository it builds: the transition is
  \<open>GRUInitialState(attended_dim=state_dim, dim=state_dim)\<close>, so the initial transformer
  reads as many features as the state has, and the feedback brick is
  \<open>LookupFeedbackWMT15(vocab_size, embedding_dim)\<close> under a \<open>SoftmaxEmitter\<close>, whose
  outputs are scalars (output dimension 0). The parameter values, a lookup table of
  \<open>vocab_size\<close> rows and the weights and biases of the initial transformer, are given.
\<close>

definition Decoder_transition :: "nat \<Rightarrow> matrix \<Rightarrow> real list \<Rightarrow> gru_initial_state" where
  "Decoder_transition state_dim' W b =
     \<lparr>attended_dim = state_dim', state_dim = state_dim', init_W = W, init_b = b\<rparr>"

definition Decoder_feedback :: "nat \<Rightarrow> matrix \<Rightarrow> lookup_feedback" where
  "Decoder_feedback embedding_dim W =
     \<lparr>lookup_W = W, feedback_dim = embedding_dim, output_dim = 0\<rparr>"

section \<open>Model assembly (helpers.py)\<close>

text \<open>
  \<open>use_decoder_on_representations\<close>, the training half: the inputs
  \<open>punctuation_marks\<close> and \<open>punctuation_marks_mask\<close> are the values fed for the two
  symbolic variables of these names.
\<close>

definition use_decoder_on_representations_cost ::
  "cost_matrix_fn \<Rightarrow> tensor3 \<Rightarrow> imatrix \<Rightarrow> matrix \<Rightarrow> error + real" where
  "use_decoder_on_representations_cost cost_matrix training_representation
       punctuation_marks punctuation_marks_mask =
     Decoder_cost cost_matrix training_representation punctuation_marks_mask
       punctuation_marks punctuation_marks_mask"

text \<open>
  \<open>create_multitask_model\<close>, its cost: one decoder is used on the representation of the
  word encoder and on that of the audio encoder; \<open>words_cost\<close> is reassigned before the
  final sum.
\<close>

definition create_multitask_model_cost ::
  "cost_matrix_fn \<Rightarrow> tensor3 \<Rightarrow> tensor3 \<Rightarrow> imatrix \<Rightarrow> matrix \<Rightarrow> error + real" where
  "create_multitask_model_cost cost_matrix words_training_representation
       audio_training_representation punctuation_marks punctuation_marks_mask =
     (case use_decoder_on_representations_cost cost_matrix words_training_representation
             punctuation_marks punctuation_marks_mask of
        Inl e \<Rightarrow> Inl e
      | Inr words_cost \<Rightarrow>
          (case use_decoder_on_representations_cost cost_matrix
                  audio_training_representation punctuation_marks punctuation_marks_mask of
             Inl e \<Rightarrow> Inl e
           | Inr audio_cost \<Rightarrow>
               (let words_cost' = words_cost + audio_cost;
                    cost = words_cost' + audio_cost
                in Inr cost)))"

text \<open>
  \<open>merge_representations\<close> inside \<open>create_model\<close>: \<open>tensor.stack\<close> joins tensors of one
  shape along a new first axis, \<open>tensor.max(..., axis=0)\<close> takes the maximum along it.
\<close>

definition same_shape3 :: "tensor3 \<Rightarrow> tensor3 \<Rightarrow> bool" where
  "same_shape3 a b = list_all2 same_shape a b"

definition stack :: "tensor3 list \<Rightarrow> error + tensor3 list" where
  "stack ts =
     (case ts of
        [] \<Rightarrow> Inl ValueError
      | t # rest \<Rightarrow> if list_all (same_shape3 t) rest then Inr ts else Inl ValueError)"

definition max3 :: "tensor3 \<Rightarrow> tensor3 \<Rightarrow> tensor3" where
  "max3 a b = map2 (\<lambda>m n. map2 (\<lambda>r s. map2 max r s) m n) a b"

definition max_axis0 :: "tensor3 list \<Rightarrow> tensor3" where
  "max_axis0 ts = (case ts of [] \<Rightarrow> [] | t # rest \<Rightarrow> fold (\<lambda>u acc. max3 acc u) rest t)"

definition merge_representations :: "tensor3 \<Rightarrow> tensor3 \<Rightarrow> error + tensor3" where
  "merge_representations words audio =
     (case stack [words, audio] of Inl e \<Rightarrow> Inl e | Inr ts \<Rightarrow> Inr (max_axis0 ts))"

text \<open>
  The configuration, as far as the assembly reads it, and the values the encoders'
  representations take for the fed inputs (the encoders' recurrent passes are library
  bricks; the assembly only routes their results).
\<close>

record config =
  input :: string

record representations =
  words_training_representation :: tensor3
  words_sampling_representation :: tensor3
  audio_training_representation :: tensor3
  audio_sampling_representation :: tensor3

text \<open>
  \<open>create_model\<close>, the representations it hands to \<open>create_decoder\<close>: a pair (training,
  sampling). No branch assigns them for another \<open>input\<close>.
\<close>

definition create_model_representations ::
  "config \<Rightarrow> representations \<Rightarrow> (error + tensor3) \<times> (error + tensor3)" where
  "create_model_representations cfg reps =
     (if input cfg = ''words''
      then (Inr (words_training_representation reps), Inr (words_sampling_representation reps))
      else if input cfg = ''audio''
      then (Inr (audio_training_representation reps), Inr (audio_sampling_representation reps))
      else if input cfg = ''both''
      then (merge_representations (words_training_representation reps)
              (audio_training_representation reps),
            merge_representations (words_sampling_representation reps)
              (audio_sampling_representation reps))
      else (Inl UnboundLocalError, Inl UnboundLocalError))"

text \<open>
  \<open>create_model\<close>, its results: the cost and the generated samples that
  \<open>create_decoder\<close> and \<open>use_decoder_on_representations\<close> build from the two
  representations.
\<close>

definition create_model_cost ::
  "config \<Rightarrow> cost_matrix_fn \<Rightarrow> representations \<Rightarrow> imatrix \<Rightarrow> matrix \<Rightarrow> error + real" where
  "create_model_cost cfg cost_matrix reps punctuation_marks punctuation_marks_mask =
     (case fst (create_model_representations cfg reps) of
        Inl e \<Rightarrow> Inl e
      | Inr training_representation \<Rightarrow>
          use_decoder_on_representations_cost cost_matrix training_representation
            punctuation_marks punctuation_marks_mask)"

definition create_model_samples ::
  "config \<Rightarrow> gru_initial_state \<Rightarrow> generate_step \<Rightarrow> representations
     \<Rightarrow> error + (matrix \<times> itensor) list" where
  "create_model_samples cfg tr step reps =
     (case snd (create_model_representations cfg reps) of
        Inl e \<Rightarrow> Inl e
      | Inr sampling_representation \<Rightarrow> Decoder_generate tr step sampling_representation)"

subsection \<open>Parameter report\<close>

text \<open>
  \<open>Selector(model).get_parameters()\<close> is a dictionary from parameter names to
  parameters; of a parameter only the shape of its value is read. A dictionary is an
  association list in insertion order. \<open>toolz.merge\<close> updates an empty dictionary with
  each argument in turn, so a later binding of a name replaces an earlier one.
\<close>

type_synonym parameters = "(string \<times> nat list) list"

definition merge :: "('k \<times> 'v) list list \<Rightarrow> ('k \<times> 'v) list" where
  "merge dicts = fold (\<lambda>d rv. fold (\<lambda>kv. AList.update (fst kv) (snd kv)) d rv) dicts []"

text \<open>
  \<open>print_parameteters\<close>: what it logs, the (shape, name) line of every parameter and the
  total number of parameters.
\<close>

definition print_parameteters :: "parameters list \<Rightarrow> (nat list \<times> string) list \<times> nat" where
  "print_parameteters models =
     (let param_dict = merge models;
          number_of_parameters = fold (\<lambda>kv n. n + prod_list (snd kv)) param_dict 0
      in (map (\<lambda>kv. (snd kv, fst kv)) param_dict, number_of_parameters))"

text \<open>
  The report of \<open>create_model\<close>: \<open>print_parameteters(models + [decoder])\<close>, where
  \<open>models\<close> is the encoder of the configured input, or both encoders.
\<close>

definition create_model_models ::
  "config \<Rightarrow> parameters \<Rightarrow> parameters \<Rightarrow> error + parameters list" where
  "create_model_models cfg words_encoder audio_encoder =
     (if input cfg = ''words'' then Inr [words_encoder]
      else if input cfg = ''audio'' then Inr [audio_encoder]
      else if input cfg = ''both'' then Inr [words_encoder, audio_encoder]
      else Inl UnboundLocalError)"

definition create_model_report ::
  "config \<Rightarrow> parameters \<Rightarrow> parameters \<Rightarrow> parameters
     \<Rightarrow> error + (nat list \<times> string) list \<times> nat" where
  "create_model_report cfg words_encoder audio_encoder decoder =
     (case create_model_models cfg words_encoder audio_encoder of
        Inl e \<Rightarrow> Inl e
      | Inr models \<Rightarrow> Inr (print_parameteters (models @ [decoder])))"

text \<open>
  The elementwise maximum of two 3-tensors in the spec's words: at every (position,
  batch, feature) index of the first, the larger of the two entries. The fusion of the
  code is compared with it below.
\<close>

definition elementwise_max :: "tensor3 \<Rightarrow> tensor3 \<Rightarrow> tensor3" where
  "elementwise_max words audio =
     map (\<lambda>t. map (\<lambda>b. map (\<lambda>f. max (words ! t ! b ! f) (audio ! t ! b ! f))
                          [0..<length (words ! t ! b)])
                [0..<length (words ! t)])
         [0..<length words]"

text \<open>
  Padding a batch-major mask: \<open>k\<close> more positions with mask value 0 for every item.
\<close>

definition pad_mask :: "nat \<Rightarrow> matrix \<Rightarrow> matrix" where
  "pad_mask k m = map (\<lambda>row. row @ replicate k 0) m"

text \<open>Padding batch-major token sequences: more tokens for every item.\<close>

definition pad_tokens :: "imatrix \<Rightarrow> imatrix \<Rightarrow> imatrix" where
  "pad_tokens padding m = map2 (\<lambda>row extra. row @ extra) m padding"

section \<open>A small decoder\<close>

text \<open>
  One concrete decoder, on which the theorems are run: three output symbols embedded in
  two dimensions, two state dimensions, representations of four features (two forward,
  two backward). The attention is uniform over the unmasked positions (all energies 0),
  the transition adds the feedback to the state, and the cost of a target symbol is the
  sum of the state, the previous feedback and the glimpse, plus the symbol's index.
\<close>

definition demo_feedback :: lookup_feedback where
  "demo_feedback = Decoder_feedback 2 [[1, 0], [0, 1], [1, 1]]"

definition demo_transition :: gru_initial_state where
  "demo_transition = Decoder_transition 2 [[1, 0], [0, 1]] [0, 0]"

definition demo_bricks :: generator_bricks where
  "demo_bricks =
     \<lparr>energy = (\<lambda>s a. 0),
      compute_states = (\<lambda>s fb g. map2 (+) s fb),
      readout_cost = (\<lambda>s p g y. sum_list s + sum_list p + sum_list g + real_of_int y),
      representation_dim = 4\<rparr>"

definition demo_cost_matrix :: cost_matrix_fn where
  "demo_cost_matrix =
     sequence_generator_cost_matrix demo_feedback demo_transition demo_bricks"

text \<open>Two source positions, two batch items, four features.\<close>

definition demo_words :: tensor3 where
  "demo_words = [[[1, 2, 0, 0], [3, 1, 0, 0]], [[2, 2, 1, 1], [0, 1, 2, 0]]]"

definition demo_audio :: tensor3 where
  "demo_audio = [[[4, 0, 0, 0], [1, 0, 0, 0]], [[2, 0, 0, 0], [0, 0, 3, 0]]]"

text \<open>
  Targets and target mask, batch-major: item 0 has two symbols, item 1 has one and a
  padded position.
\<close>

definition demo_marks :: imatrix where
  "demo_marks = [[0, 1], [2, 0]]"

definition demo_marks_mask :: matrix where
  "demo_marks_mask = [[1, 1], [1, 0]]"

text \<open>A generation step that leaves the states alone and emits symbol 0 for every item.\<close>

definition demo_step :: generate_step where
  "demo_step t states outputs attended attended_mask =
     (states, ([length states], replicate (length states) 0))"

text \<open>
  A generation step whose results depend on what it is given: every state component grows
  by 1, and every item's symbol is the previous one plus 2, modulo 3. From the initial
  output -1 the symbols run 1, 0, 2, 1; symbol 0 stands for an end marker.
\<close>

definition demo_cycling_step :: generate_step where
  "demo_cycling_step t states outputs attended attended_mask =
     (map (map (\<lambda>x. x + 1)) states, (fst outputs, map (\<lambda>y. (y + 2) mod 3) (snd outputs)))"

definition demo_config :: config where
  "demo_config = \<lparr>input = ''both''\<rparr>"

definition demo_representations :: representations where
  "demo_representations =
     \<lparr>words_training_representation = demo_words,
      words_sampling_representation = demo_words,
      audio_training_representation = demo_audio,
      audio_sampling_representation = demo_audio\<rparr>"

definition demo_words_parameters :: parameters where
  "demo_words_parameters = [(''/bidirectionalencoder/words_embeddings.W'', [3, 2])]"

definition demo_audio_parameters :: parameters where
  "demo_audio_parameters = [(''/bidirectionalaudioencoder/fwd_fork/fork_inputs.W'', [4, 2])]"

definition demo_decoder_parameters :: parameters where
  "demo_decoder_parameters =
     [(''/decoder/sequencegenerator/readout/lookupfeedbackwmt15/lookuptable.W'', [3, 2]),
      (''/decoder/sequencegenerator/att_trans/decoder/state_initializer/linear_0.b'', [2])]"

section \<open>Properties\<close>

subsection \<open>Lists and sums\<close>

lemma demo_feedback_eq:
  "demo_feedback = \<lparr>lookup_W = [[1, 0], [0, 1], [1, 1]], feedback_dim = 2, output_dim = 0\<rparr>"
  by (simp add: demo_feedback_def Decoder_feedback_def)

lemma demo_transition_eq:
  "demo_transition =
     \<lparr>attended_dim = 2, state_dim = 2, init_W = [[1, 0], [0, 1]], init_b = [0, 0]\<rparr>"
  by (simp add: demo_transition_def Decoder_transition_def)

lemma sum_list_map_upt: "sum_list (map f [0..<n]) = (\<Sum>i<n. (f i :: real))"
  by (simp add: interv_sum_list_conv_sum_set_nat atLeast0LessThan)

lemma sum_list_map2_nth:
  assumes "length xs = n" and "length ys = n"
  shows "sum_list (map2 f xs ys) = (\<Sum>i<n. (f (xs ! i) (ys ! i) :: real))"
proof -
  have "map2 f xs ys = map (\<lambda>i. f (xs ! i) (ys ! i)) [0..<n]"
    using assms by (intro nth_equalityI) simp_all
  then show ?thesis by (simp add: sum_list_map_upt)
qed

lemma transpose_rect:
  assumes "0 < length m" and "\<forall>row\<in>set m. length row = T"
  shows "transpose m = map (\<lambda>t. map (\<lambda>b. m ! b ! t) [0..<length m]) [0..<T]"
  using assms by (intro transpose_rectangle) auto

lemma map2_nth_eq:
  assumes "length xs = length ys"
  shows "map2 f xs ys = map (\<lambda>i. f (xs ! i) (ys ! i)) [0..<length xs]"
  using assms by (intro nth_equalityI) simp_all

lemma collect_Inr: "collect (map (\<lambda>x. Inr (f x)) xs) = Inr (map f xs)"
  by (induction xs) auto

subsection \<open>The training cost\<close>

lemma mul_elemwise_transpose:
  assumes "length tm = B" "0 < B" "\<forall>row\<in>set tm. length row = T"
    and "length c = T" "\<forall>row\<in>set c. length row = B"
  shows "mul_elemwise c (transpose tm) =
     Inr (map (\<lambda>t. map (\<lambda>b. c ! t ! b * tm ! b ! t) [0..<B]) [0..<T])"
proof -
  have tr: "transpose tm = map (\<lambda>t. map (\<lambda>b. tm ! b ! t) [0..<B]) [0..<T]"
    using assms transpose_rect[of tm T] by simp
  have sh: "same_shape c (transpose tm)"
    unfolding same_shape_def tr using assms by (simp add: list_all2_conv_all_nth)
  have "map2 (\<lambda>r s. map2 (*) r s) c (transpose tm) =
      map (\<lambda>t. map (\<lambda>b. c ! t ! b * tm ! b ! t) [0..<B]) [0..<T]"
    unfolding tr using assms by (intro nth_equalityI) (simp_all add: list_eq_iff_nth_eq)
  with sh show ?thesis by (simp add: mul_elemwise_def)
qed

lemma sum_all_index:
  "sum_all (map (\<lambda>t. map (\<lambda>b. f t b) [0..<B]) [0..<T]) = (\<Sum>t<T. \<Sum>b<B. f t b)"
  by (simp add: sum_all_def comp_def sum_list_map_upt)

lemma Decoder_cost_value:
  assumes "cm (transpose tm) (transpose tgt) rep (transpose sm) = Inr c"
    and "length tm = B" "0 < B" "\<forall>row\<in>set tm. length row = T"
    and "length c = T" "\<forall>row\<in>set c. length row = B"
  shows "Decoder_cost cm rep sm tgt tm =
     Inr (sum_all (map (\<lambda>t. map (\<lambda>b. c ! t ! b * tm ! b ! t) [0..<B]) [0..<T]) / real B)"
  using assms by (simp add: Decoder_cost_def mul_elemwise_transpose[of tm B T c])

text \<open>
  \<^bold>\<open>C2.\<close> For every target sequence, target mask, source representation and source mask
  for which the sequence generator returns a cost matrix \<open>c\<close> of the target's (time, batch)
  shape, \<open>Decoder.cost\<close> is the sum over all (time, batch) entries of \<open>c\<close> times the target
  mask, divided by the number \<open>B\<close> of batch items (not by the number of unmasked tokens).
\<close>

theorem Decoder_cost_masked_sum_over_batch:
  assumes "cm (transpose tm) (transpose tgt) rep (transpose sm) = Inr c"
    and "length tm = B" "0 < B" "\<forall>row\<in>set tm. length row = T"
    and "length c = T" "\<forall>row\<in>set c. length row = B"
  shows "Decoder_cost cm rep sm tgt tm =
     Inr ((\<Sum>t<T. \<Sum>b<B. c ! t ! b * tm ! b ! t) / real B)"
proof -
  have "Decoder_cost cm rep sm tgt tm =
      Inr (sum_all (map (\<lambda>t. map (\<lambda>b. c ! t ! b * tm ! b ! t) [0..<B]) [0..<T]) / real B)"
    using assms by (rule Decoder_cost_value[where cm = cm])
  then show ?thesis
    by (simp only: sum_all_index)
qed

lemma Decoder_cost_padding:
  assumes B: "length tm = B" "0 < B" and tmT: "\<forall>row\<in>set tm. length row = T"
    and lib: "cm (transpose tm) (transpose tgt) rep (transpose sm) = Inr c"
    and lib': "cm (transpose (pad_mask k tm)) (transpose tgt') rep' (transpose sm') = Inr c'"
    and c: "length c = T" "\<forall>row\<in>set c. length row = B"
    and c': "length c' = T + k" "\<forall>row\<in>set c'. length row = B"
    and same: "take T c' = c"
  shows "Decoder_cost cm rep' sm' tgt' (pad_mask k tm) = Decoder_cost cm rep sm tgt tm"
proof -
  let ?tm' = "pad_mask k tm"
  have B': "length ?tm' = B" and tmT': "\<forall>row\<in>set ?tm'. length row = T + k"
    using B tmT by (auto simp: pad_mask_def)
  have 1: "Decoder_cost cm rep sm tgt tm =
      Inr ((\<Sum>t<T. \<Sum>b<B. c ! t ! b * tm ! b ! t) / real B)"
    using Decoder_cost_value[where cm = cm, OF lib B tmT c] by (simp only: sum_all_index)
  have 2: "Decoder_cost cm rep' sm' tgt' ?tm' =
      Inr ((\<Sum>t<T + k. \<Sum>b<B. c' ! t ! b * ?tm' ! b ! t) / real B)"
    using Decoder_cost_value[where cm = cm, OF lib' B' B(2) tmT' c']
    by (simp only: sum_all_index)
  have low: "c' ! t ! b * ?tm' ! b ! t = c ! t ! b * tm ! b ! t" if "t < T" "b < B" for t b
  proof -
    have "c' ! t = c ! t" using same that(1) by (metis nth_take)
    moreover have "?tm' ! b ! t = tm ! b ! t"
      using B tmT that by (simp add: pad_mask_def nth_append)
    ultimately show ?thesis by simp
  qed
  have high: "c' ! t ! b * ?tm' ! b ! t = 0" if "T \<le> t" "t < T + k" "b < B" for t b
    using B tmT that by (simp add: pad_mask_def nth_append)
  have "(\<Sum>t<T + k. \<Sum>b<B. c' ! t ! b * ?tm' ! b ! t)
      = (\<Sum>t<T. \<Sum>b<B. c' ! t ! b * ?tm' ! b ! t)
        + (\<Sum>t=T..<T + k. \<Sum>b<B. c' ! t ! b * ?tm' ! b ! t)"
    by (simp add: lessThan_atLeast0 sum.atLeastLessThan_concat)
  also have "(\<Sum>t<T. \<Sum>b<B. c' ! t ! b * ?tm' ! b ! t)
      = (\<Sum>t<T. \<Sum>b<B. c ! t ! b * tm ! b ! t)"
    using low by (intro sum.cong) simp_all
  also have "(\<Sum>t=T..<T + k. \<Sum>b<B. c' ! t ! b * ?tm' ! b ! t) = 0"
    using high by (intro sum.neutral ballI) simp
  finally show ?thesis using 1 2 by simp
qed

text \<open>Unfolding the small decoder and the bricks it is made of.\<close>

lemmas demo_defs =
  demo_cost_matrix_def sequence_generator_cost_matrix_def demo_feedback_eq demo_transition_eq
  demo_bricks_def demo_words_def demo_audio_def demo_marks_def demo_marks_mask_def
  same_shape_def feedback_def lookup_apply_def initial_states_def mlp_apply_def
  linear_apply_def last_features_def initial_outputs_def initial_output_def
  take_glimpses_def compute_weights_def column_def item_targets_def Let_def upt_conv_Cons
  sum_list_replicate

lemma demo_words_costs:
  "demo_cost_matrix (transpose demo_marks_mask) (transpose demo_marks) demo_words
     (transpose demo_marks_mask) = Inr [[9 / 2, 6], [15 / 2, 8]]"
  by (simp add: demo_defs)

lemma demo_audio_costs:
  "demo_cost_matrix (transpose demo_marks_mask) (transpose demo_marks) demo_audio
     (transpose demo_marks_mask) = Inr [[3, 3], [6, 5]]"
  by (simp add: demo_defs)

lemma demo_words_cost:
  "use_decoder_on_representations_cost demo_cost_matrix demo_words demo_marks demo_marks_mask
     = Inr 9"
proof -
  have "Decoder_cost demo_cost_matrix demo_words demo_marks_mask demo_marks demo_marks_mask =
      Inr (sum_all (map (\<lambda>t. map (\<lambda>b. [[9 / 2, 6], [15 / 2, 8]] ! t ! b * demo_marks_mask ! b ! t)
              [0..<2]) [0..<2]) / real 2)"
    by (rule Decoder_cost_value[where cm = demo_cost_matrix, OF demo_words_costs])
      (simp_all add: demo_marks_mask_def)
  then show ?thesis
    by (simp add: use_decoder_on_representations_cost_def demo_marks_mask_def sum_all_def
        upt_conv_Cons)
qed

lemma demo_audio_cost:
  "use_decoder_on_representations_cost demo_cost_matrix demo_audio demo_marks demo_marks_mask
     = Inr 6"
proof -
  have "Decoder_cost demo_cost_matrix demo_audio demo_marks_mask demo_marks demo_marks_mask =
      Inr (sum_all (map (\<lambda>t. map (\<lambda>b. [[3, 3], [6, 5]] ! t ! b * demo_marks_mask ! b ! t)
              [0..<2]) [0..<2]) / real 2)"
    by (rule Decoder_cost_value[where cm = demo_cost_matrix, OF demo_audio_costs])
      (simp_all add: demo_marks_mask_def)
  then show ?thesis
    by (simp add: use_decoder_on_representations_cost_def demo_marks_mask_def sum_all_def
        upt_conv_Cons)
qed

text \<open>
  The small decoder on its two-item batch: the entries of the cost matrix under the mask
  are 9/2, 6 and 15/2, their sum is 18, and the two batch items make it 9 (three unmasked
  tokens would make it 6).
\<close>

theorem Decoder_cost_masked_sum_over_batch_witness:
  "Decoder_cost demo_cost_matrix demo_words demo_marks_mask demo_marks demo_marks_mask = Inr 9"
proof -
  have "Decoder_cost demo_cost_matrix demo_words demo_marks_mask demo_marks demo_marks_mask =
      Inr ((\<Sum>t<2. \<Sum>b<2. [[9 / 2, 6], [15 / 2, 8]] ! t ! b * demo_marks_mask ! b ! t) / real 2)"
    by (rule Decoder_cost_masked_sum_over_batch[where cm = demo_cost_matrix, OF demo_words_costs])
      (simp_all add: demo_marks_mask_def)
  then show ?thesis
    by (simp add: demo_marks_mask_def lessThan_nat_numeral lessThan_Suc)
qed

subsection \<open>The sequence generator under padding\<close>

lemma map2_masked_zero:
  "map2 (\<lambda>e m. if m = 0 then 0 else g e) es (replicate (length es) (0::real))
     = replicate (length es) (0::real)"
  by (induction es) simp_all

lemma compute_weights_length:
  assumes "compute_weights es am = Inr w"
  shows "length w = min (length es) (length am)"
  using assms by (auto simp: compute_weights_def Let_def split: if_splits)

lemma compute_weights_padding:
  assumes len: "length es = length am"
  shows "compute_weights (es @ es') (am @ replicate (length es') 0)
       = (case compute_weights es am of
            Inl e \<Rightarrow> Inl e
          | Inr w \<Rightarrow> Inr (w @ replicate (length es') 0))"
proof -
  have al: "list_all (\<lambda>m. m = 0) (am @ replicate (length es') 0)
      = list_all (\<lambda>m. m = (0::real)) am"
    by (auto simp: list_all_iff)
  have pad: "map2 (\<lambda>e m. if m = 0 then 0 else g e) (es @ es') (am @ replicate (length es') 0)
      = map2 (\<lambda>e m. if m = 0 then 0 else g e) es am @ replicate (length es') 0"
    for g :: "real \<Rightarrow> real"
    using len map2_masked_zero[of g es'] by simp
  have den: "sum_list (map2 (\<lambda>e m. if m = 0 then 0 else exp e) (es @ es')
               (am @ replicate (length es') 0))
      = sum_list (map2 (\<lambda>e m. if m = 0 then 0 else exp e) es am)"
    unfolding pad[of exp] by (simp add: sum_list_replicate)
  show ?thesis
    unfolding compute_weights_def Let_def al den
    using pad[of "\<lambda>e. exp e / sum_list (map2 (\<lambda>e m. if m = 0 then 0 else exp e) es am)"]
    by simp
qed

lemma sum_list_map2_zero:
  "sum_list (map2 (\<lambda>w a. w * g a) (replicate n (0::real)) xs) = 0"
proof (induction n arbitrary: xs)
  case 0
  then show ?case by simp
next
  case (Suc n)
  then show ?case by (cases xs) simp_all
qed

lemma take_glimpses_Inl:
  "take_glimpses br s att am = Inl e \<longleftrightarrow> list_all (\<lambda>m. m = 0) am \<and> e = DegenerateInputError"
  by (auto simp: take_glimpses_def compute_weights_def Let_def split: sum.splits if_splits)

lemma take_glimpses_padding:
  assumes len: "length att = length am"
  shows "take_glimpses br s (att @ att') (am @ replicate (length att') 0)
       = take_glimpses br s att am"
proof (cases "compute_weights (map (energy br s) att) am")
  case (Inl e)
  then show ?thesis
    using compute_weights_padding[of "map (energy br s) att" am "map (energy br s) att'"] len
    by (simp add: take_glimpses_def)
next
  case (Inr w)
  have l: "length w = length att"
    using compute_weights_length[OF Inr] len by simp
  have "compute_weights (map (energy br s) att @ map (energy br s) att')
          (am @ replicate (length att') 0) = Inr (w @ replicate (length att') 0)"
    using compute_weights_padding[of "map (energy br s) att" am "map (energy br s) att'"] len Inr
    by simp
  then show ?thesis
    using Inr l by (simp add: take_glimpses_def sum_list_map2_zero)
qed

lemma item_costs_attention_padding:
  assumes "length att = length am"
  shows "item_costs br (att @ att') (am @ replicate (length att') 0) s p xs
       = item_costs br att am s p xs"
proof (induction xs arbitrary: s p)
  case Nil
  then show ?case by simp
next
  case (Cons x xs)
  obtain target fb where x: "x = (target, fb)" by (cases x)
  show ?case
    by (simp add: x take_glimpses_padding[OF assms] Cons.IH cong: sum.case_cong)
qed

lemma item_costs_total:
  assumes "\<not> list_all (\<lambda>m. m = 0) am"
  shows "\<exists>c. item_costs br att am s p xs = Inr c"
proof (induction xs arbitrary: s p)
  case Nil
  then show ?case by simp
next
  case (Cons x xs)
  obtain target fb where x: "x = (target, fb)" by (cases x)
  obtain g where g: "take_glimpses br s att am = Inr g"
    using assms take_glimpses_Inl[of br s att am] by (cases "take_glimpses br s att am") auto
  obtain c where "item_costs br att am (compute_states br s fb g) fb xs = Inr c"
    using Cons.IH by blast
  then show ?case by (simp add: x g)
qed

lemma item_costs_degenerate:
  assumes "list_all (\<lambda>m. m = 0) am" and "xs \<noteq> []"
  shows "item_costs br att am s p xs = Inl DegenerateInputError"
proof -
  obtain target fb rest where xs: "xs = (target, fb) # rest"
    using assms(2) by (cases xs) auto
  have "take_glimpses br s att am = Inl DegenerateInputError"
    using assms(1) by (simp add: take_glimpses_Inl)
  then show ?thesis by (simp add: xs)
qed

lemma item_costs_prefix:
  assumes "item_costs br att am s p (xs @ ys) = Inr c'"
  shows "item_costs br att am s p xs = Inr (take (length xs) c')"
  using assms
proof (induction xs arbitrary: s p c')
  case Nil
  then show ?case by simp
next
  case (Cons x xs)
  obtain target fb where x: "x = (target, fb)" by (cases x)
  from Cons.prems obtain g rest where g: "take_glimpses br s att am = Inr g"
    and r: "item_costs br att am (compute_states br s fb g) fb (xs @ ys) = Inr rest"
    and c': "c' = readout_cost br s p g target # rest"
    by (auto simp: x split: sum.splits)
  from Cons.IH[OF r] show ?case
    by (simp add: x g c')
qed

lemma collect_InrD:
  assumes "collect rs = Inr vs"
  shows "rs = map Inr vs"
  using assms
proof (induction rs arbitrary: vs)
  case Nil
  then show ?case by simp
next
  case (Cons r rs)
  then show ?case by (cases r) (auto split: sum.splits)
qed

lemma collect_upt_InrD:
  assumes "collect (map f [0..<n]) = Inr vs"
  shows "length vs = n" and "b < n \<Longrightarrow> f b = Inr (vs ! b)"
proof -
  have eq: "map f [0..<n] = map Inr vs"
    using assms by (rule collect_InrD)
  then show l: "length vs = n"
    by (metis length_map length_upt minus_nat.diff_0)
  show "f b = Inr (vs ! b)" if "b < n"
  proof -
    have "map f [0..<n] ! b = map Inr vs ! b" using eq by simp
    then show ?thesis using that l by simp
  qed
qed

lemma collect_upt_Inr:
  assumes "\<And>b. b < n \<Longrightarrow> f b = Inr (g b)"
  shows "collect (map f [0..<n]) = Inr (map g [0..<n])"
proof -
  have "map f [0..<n] = map (\<lambda>b. Inr (g b)) [0..<n]"
    using assms by simp
  then show ?thesis by (simp only: collect_Inr)
qed

lemma feedback_InrD:
  assumes "feedback brick (shp, xs) = Inr (sh, r)"
  obtains lx where "output_dim brick = 0"
    and "lookup_apply (lookup_W brick) (map (\<lambda>v. if v < 0 then 0 else v) xs) = Inr lx"
    and "list_all (\<lambda>row. length row = feedback_dim brick) lx"
    and "r = map2 (\<lambda>v row. if v < 0 then replicate (feedback_dim brick) 0 else row) xs lx"
  using assms by (auto simp: feedback_def Let_def split: if_splits sum.splits)

lemma lookup_apply_append:
  assumes "lookup_apply W xs = Inr a" and "lookup_apply W ys = Inr b"
  shows "lookup_apply W (xs @ ys) = Inr (a @ b)"
  using assms by (auto simp: lookup_apply_def Let_def split: if_splits)

lemma lookup_apply_length:
  assumes "lookup_apply W xs = Inr a"
  shows "length a = length xs"
  using assms by (auto simp: lookup_apply_def Let_def split: if_splits)

lemma feedback_append:
  assumes "feedback brick (shp1, xs) = Inr (sh1, r1)"
    and "feedback brick (shp2, ys) = Inr (sh2, r2)"
  shows "feedback brick (shp, xs @ ys) = Inr (shp @ [feedback_dim brick], r1 @ r2)"
proof -
  let ?z = "map (\<lambda>v. if v < 0 then 0 else v)"
  let ?f = "\<lambda>v row. if v < 0 then replicate (feedback_dim brick) 0 else row"
  from assms(1) obtain lx where od: "output_dim brick = 0"
    and lx: "lookup_apply (lookup_W brick) (?z xs) = Inr lx"
    and rx: "list_all (\<lambda>row. length row = feedback_dim brick) lx"
    and r1: "r1 = map2 ?f xs lx"
    by (rule feedback_InrD)
  from assms(2) obtain ly where
    ly: "lookup_apply (lookup_W brick) (?z ys) = Inr ly"
    and ry: "list_all (\<lambda>row. length row = feedback_dim brick) ly"
    and r2: "r2 = map2 ?f ys ly"
    by (rule feedback_InrD)
  have l: "lookup_apply (lookup_W brick) (?z (xs @ ys)) = Inr (lx @ ly)"
    using lookup_apply_append[OF lx ly] by simp
  have len: "length xs = length lx"
    using lookup_apply_length[OF lx] by simp
  have "map2 ?f (xs @ ys) (lx @ ly) = r1 @ r2"
    using len by (simp add: r1 r2)
  then show ?thesis
    using od l rx ry by (simp add: feedback_def Let_def)
qed

lemma feedback_length:
  assumes "feedback brick (shp, xs) = Inr (sh, r)"
  shows "length r = length xs"
proof -
  let ?z = "map (\<lambda>v. if v < 0 then 0 else v)"
  from assms obtain lx where
    lx: "lookup_apply (lookup_W brick) (?z xs) = Inr lx"
    and r: "r = map2 (\<lambda>v row. if v < 0 then replicate (feedback_dim brick) 0 else row) xs lx"
    by (rule feedback_InrD)
  show ?thesis using lookup_apply_length[OF lx] by (simp add: r)
qed

lemma initial_states_append:
  "a \<noteq> [] \<Longrightarrow> initial_states tr B (a @ a') = initial_states tr B a"
  by (cases a) (simp_all add: initial_states_def)

lemma length_concat_rect:
  "list_all (\<lambda>r. length r = B) y \<Longrightarrow> length (concat y) = length y * B"
  by (induction y) simp_all

lemma flat_index_less:
  assumes "u < T" and "b < (B::nat)"
  shows "u * B + b < T * B"
proof -
  have "u * B + b < Suc u * B" using assms(2) by simp
  also have "\<dots> \<le> T * B" using assms(1) by (intro mult_le_mono1) simp
  finally show ?thesis .
qed

lemma column_append: "column b (xs @ ys) = column b xs @ column b ys"
  by (simp add: column_def)

lemma column_zero: "b < B \<Longrightarrow> column b (replicate j (replicate B (0::real))) = replicate j 0"
  by (simp add: column_def)

lemma item_targets_append:
  assumes fb: "length fb = length y * B" and b: "b < B"
  shows "\<exists>ext. item_targets b B (y @ y') (fb @ fb') = item_targets b B y fb @ ext"
proof -
  let ?f = "\<lambda>u. ((y @ y') ! u ! b, (fb @ fb') ! (u * B + b))"
  let ?g = "\<lambda>u. (y ! u ! b, fb ! (u * B + b))"
  have eq: "?f u = ?g u" if "u < length y" for u
  proof -
    have "u * B + b < length fb"
      using flat_index_less[OF that b] fb by simp
    then show ?thesis
      using that by (simp add: nth_append)
  qed
  have "map ?f [0..<length y] = map ?g [0..<length y]"
    by (rule map_cong[OF refl]) (simp add: eq)
  moreover have "[0..<length (y @ y')] = [0..<length y] @ [length y..<length y + length y']"
    using upt_add_eq_append[of 0 "length y" "length y'"] by simp
  ultimately have "item_targets b B (y @ y') (fb @ fb')
      = item_targets b B y fb @ map ?f [length y..<length y + length y']"
    unfolding item_targets_def by (simp only: map_append)
  then show ?thesis by blast
qed

lemma length_item_targets: "length (item_targets b B y fb) = length y"
  by (simp add: item_targets_def)

lemma sequence_generator_cost_matrix_InrD:
  assumes "sequence_generator_cost_matrix fbk tr br m y a am = Inr c"
    and "B = (case y of [] \<Rightarrow> 0 | r # _ \<Rightarrow> length r)"
  obtains fbs states fb0 per_item where "same_shape m y" and "same_shape a am"
    and "list_all (\<lambda>r. length r = B) y" and "list_all (\<lambda>x. length x = B) a"
    and "feedback fbk ([length y, B], concat y) = Inr fbs"
    and "initial_states tr B a = Inr states"
    and "feedback fbk (initial_outputs B) = Inr fb0"
    and "collect (map (\<lambda>b. item_costs br (column b a) (column b am) (states ! b)
                   (snd fb0 ! b) (item_targets b B y (snd fbs))) [0..<B]) = Inr per_item"
    and "c = map (\<lambda>t. map (\<lambda>costs. costs ! t) per_item) [0..<length y]"
proof -
  have B: "(case y of [] \<Rightarrow> 0 | r # _ \<Rightarrow> length r) = B"
    using assms(2) by simp
  have chk: "same_shape m y \<and> same_shape a am \<and> list_all (\<lambda>r. length r = B) y
      \<and> list_all (\<lambda>x. length x = B) a"
    using assms(1) unfolding sequence_generator_cost_matrix_def Let_def B
    by (simp split: if_splits)
  then have r: "(case feedback fbk ([length y, B], concat y) of
             Inl e \<Rightarrow> Inl e
           | Inr fbs \<Rightarrow>
           case initial_states tr B a of
             Inl e \<Rightarrow> Inl e
           | Inr states \<Rightarrow>
           case feedback fbk (initial_outputs B) of
             Inl e \<Rightarrow> Inl e
           | Inr fb0 \<Rightarrow>
           case collect (map (\<lambda>b.
                   item_costs br (column b a) (column b am)
                     (states ! b) (snd fb0 ! b)
                     (item_targets b B y (snd fbs)))
                 [0..<B]) of
             Inl e \<Rightarrow> Inl e
           | Inr per_item \<Rightarrow>
               Inr (map (\<lambda>t. map (\<lambda>costs. costs ! t) per_item) [0..<length y])) = Inr c"
    using assms(1) unfolding sequence_generator_cost_matrix_def Let_def B by simp
  then obtain fbs where 1: "feedback fbk ([length y, B], concat y) = Inr fbs"
    by (cases "feedback fbk ([length y, B], concat y)") simp_all
  with r obtain states where 2: "initial_states tr B a = Inr states"
    by (cases "initial_states tr B a") simp_all
  with r 1 obtain fb0 where 3: "feedback fbk (initial_outputs B) = Inr fb0"
    by (cases "feedback fbk (initial_outputs B)") simp_all
  let ?items = "collect (map (\<lambda>b. item_costs br (column b a) (column b am) (states ! b)
                   (snd fb0 ! b) (item_targets b B y (snd fbs))) [0..<B])"
  from r 1 2 3 obtain per_item where 4: "?items = Inr per_item"
    by (cases ?items) simp_all
  from r 1 2 3 4 have "c = map (\<lambda>t. map (\<lambda>costs. costs ! t) per_item) [0..<length y]"
    by simp
  with chk 1 2 3 4 that show ?thesis by blast
qed

lemma same_shape_append:
  "same_shape a b \<Longrightarrow> same_shape a' b' \<Longrightarrow> same_shape (a @ a') (b @ b')"
  by (simp add: same_shape_def list_all2_appendI)

lemma same_shape_rows:
  assumes "same_shape a am" and "list_all (\<lambda>x. length x = B) a"
  shows "length am = length a" and "\<forall>r\<in>set am. length r = B"
proof -
  show l: "length am = length a"
    using assms(1) by (simp add: same_shape_def list_all2_lengthD)
  show "\<forall>r\<in>set am. length r = B"
  proof
    fix r assume "r \<in> set am"
    then obtain i where i: "i < length am" "r = am ! i" by (auto simp: in_set_conv_nth)
    then have "length (a ! i) = length r"
      using assms(1) l by (simp add: same_shape_def list_all2_conv_all_nth)
    moreover have "length (a ! i) = B"
      using assms(2) i l by (simp add: list_all_iff)
    ultimately show "length r = B" by simp
  qed
qed

lemma sequence_generator_cost_matrix_padding:
  assumes orig: "sequence_generator_cost_matrix fbk tr br m y a am = Inr c"
    and y: "y \<noteq> []" and a: "a \<noteq> []"
    and B: "B = length (hd y)"
    and m': "\<forall>r\<in>set m'. length r = B" "length m' = length y'"
    and y': "\<forall>r\<in>set y'. length r = B"
    and fb': "feedback fbk (shp', concat y') = Inr fbs'"
    and a': "\<forall>x\<in>set a'. length x = B"
  shows "\<exists>c'. sequence_generator_cost_matrix fbk tr br (m @ m') (y @ y') (a @ a')
                 (am @ replicate (length a') (replicate B 0)) = Inr c'
            \<and> take (length y) c' = c \<and> length c' = length y + length y'
            \<and> (\<forall>r\<in>set c'. length r = B)"
proof -
  let ?am' = "am @ replicate (length a') (replicate B 0)"
  have B1: "B = (case y of [] \<Rightarrow> 0 | r # _ \<Rightarrow> length r)"
    using y B by (cases y) simp_all
  have B2: "(case y @ y' of [] \<Rightarrow> 0 | r # _ \<Rightarrow> length r) = B"
    using y B by (cases y) simp_all
  from sequence_generator_cost_matrix_InrD[OF orig B1]
  obtain fbs states fb0 per_item where sh_my: "same_shape m y" and sh_a: "same_shape a am"
    and ry: "list_all (\<lambda>r. length r = B) y" and ra: "list_all (\<lambda>x. length x = B) a"
    and fb: "feedback fbk ([length y, B], concat y) = Inr fbs"
    and st: "initial_states tr B a = Inr states"
    and f0: "feedback fbk (initial_outputs B) = Inr fb0"
    and items: "collect (map (\<lambda>b. item_costs br (column b a) (column b am) (states ! b)
                   (snd fb0 ! b) (item_targets b B y (snd fbs))) [0..<B]) = Inr per_item"
    and c: "c = map (\<lambda>t. map (\<lambda>costs. costs ! t) per_item) [0..<length y]"
    by blast
  let ?f = "\<lambda>b. item_costs br (column b a) (column b am) (states ! b) (snd fb0 ! b)
      (item_targets b B y (snd fbs))"
  let ?f' = "\<lambda>b. item_costs br (column b (a @ a')) (column b ?am') (states ! b) (snd fb0 ! b)
      (item_targets b B (y @ y') (snd fbs @ snd fbs'))"
  have lper: "length per_item = B" and per: "\<And>b. b < B \<Longrightarrow> ?f b = Inr (per_item ! b)"
    using collect_upt_InrD[OF items] by simp_all
  have fbp: "feedback fbk ([length y, B], concat y) = Inr (fst fbs, snd fbs)"
    using fb by simp
  have fbp': "feedback fbk (shp', concat y') = Inr (fst fbs', snd fbs')"
    using fb' by simp
  have lfb: "length (snd fbs) = length y * B"
    using feedback_length[OF fbp] length_concat_rect[OF ry] by simp
  have lam: "length am = length a" and ram: "\<forall>r\<in>set am. length r = B"
    using same_shape_rows[OF sh_a ra] by simp_all
  have c1: "same_shape (m @ m') (y @ y')"
    using sh_my m' y'
    by (intro same_shape_append) (simp_all add: same_shape_def list_all2_conv_all_nth)
  have c2: "same_shape (a @ a') ?am'"
    using sh_a a'
    by (intro same_shape_append) (simp_all add: same_shape_def list_all2_conv_all_nth)
  have c3: "list_all (\<lambda>r. length r = B) (y @ y')"
    using ry y' by (auto simp: list_all_iff)
  have c4: "list_all (\<lambda>x. length x = B) (a @ a')"
    using ra a' by (auto simp: list_all_iff)
  have f: "feedback fbk ([length (y @ y'), B], concat (y @ y'))
      = Inr ([length (y @ y'), B] @ [feedback_dim fbk], snd fbs @ snd fbs')"
    using feedback_append[OF fbp fbp', of "[length (y @ y'), B]"] by simp
  have s: "initial_states tr B (a @ a') = initial_states tr B a"
    by (rule initial_states_append[OF a])
  have item: "\<exists>cb. ?f' b = Inr cb \<and> take (length y) cb = per_item ! b" if b: "b < B" for b
  proof -
    have cm: "column b ?am' = column b am @ replicate (length (column b a')) 0"
      using b by (simp add: column_append column_zero) (simp add: column_def)
    have l: "length (column b a) = length (column b am)"
      using lam by (simp add: column_def)
    obtain ext where it: "item_targets b B (y @ y') (snd fbs @ snd fbs')
        = item_targets b B y (snd fbs) @ ext"
      using item_targets_append[OF lfb b] by blast
    have ne: "item_targets b B y (snd fbs) \<noteq> []"
      using y length_item_targets[of b B y "snd fbs"] by (metis length_0_conv)
    have nd: "\<not> list_all (\<lambda>m. m = 0) (column b am)"
      using item_costs_degenerate[OF _ ne, of "column b am" br "column b a" "states ! b"
          "snd fb0 ! b"] per[OF b]
      by auto
    have red: "?f' b = item_costs br (column b a) (column b am) (states ! b) (snd fb0 ! b)
        (item_targets b B y (snd fbs) @ ext)"
      unfolding column_append[of b a a'] cm it
      by (simp only: item_costs_attention_padding[OF l])
    obtain cb where cb: "?f' b = Inr cb"
      using item_costs_total[OF nd, of br "column b a" "states ! b" "snd fb0 ! b"
          "item_targets b B y (snd fbs) @ ext"] red by auto
    have "?f b = Inr (take (length (item_targets b B y (snd fbs))) cb)"
      using cb red by (intro item_costs_prefix) simp
    then have "take (length y) cb = per_item ! b"
      using per[OF b] by (simp add: length_item_targets)
    with cb show ?thesis by blast
  qed
  define g where "g b = projr (?f' b)" for b
  have gb: "?f' b = Inr (g b)" and gt: "take (length y) (g b) = per_item ! b" if "b < B" for b
    using item[OF that] by (auto simp: g_def)
  have items': "collect (map ?f' [0..<B]) = Inr (map g [0..<B])"
    by (rule collect_upt_Inr) (rule gb)
  define c' where "c' = map (\<lambda>t. map (\<lambda>costs. costs ! t) (map g [0..<B])) [0..<length (y @ y')]"
  have res: "sequence_generator_cost_matrix fbk tr br (m @ m') (y @ y') (a @ a') ?am' = Inr c'"
    unfolding sequence_generator_cost_matrix_def Let_def B2 c'_def
    using c1 c2 c3 c4 by (simp only: f s st f0 items' sum.case snd_conv if_False simp_thms)
  have row: "map (\<lambda>costs. costs ! t) (map g [0..<B]) = map (\<lambda>costs. costs ! t) per_item"
    if t: "t < length y" for t
  proof (rule nth_equalityI)
    show "length (map (\<lambda>costs. costs ! t) (map g [0..<B]))
        = length (map (\<lambda>costs. costs ! t) per_item)"
      using lper by simp
  next
    fix b assume "b < length (map (\<lambda>costs. costs ! t) (map g [0..<B]))"
    then have b: "b < B" by simp
    have "g b ! t = take (length y) (g b) ! t" using t by simp
    then show "map (\<lambda>costs. costs ! t) (map g [0..<B]) ! b
        = map (\<lambda>costs. costs ! t) per_item ! b"
      using b lper gt[OF b] by simp
  qed
  have "take (length y) c' = map (\<lambda>t. map (\<lambda>costs. costs ! t) (map g [0..<B])) [0..<length y]"
    unfolding c'_def by (simp add: take_map)
  also have "\<dots> = c"
    unfolding c by (rule map_cong[OF refl]) (rule row, simp)
  finally have tk: "take (length y) c' = c" .
  have "length c' = length y + length y'" and "\<forall>r\<in>set c'. length r = B"
    by (auto simp: c'_def)
  with res tk show ?thesis by blast
qed

lemma transpose_pad_mask:
  assumes "0 < length tm" and "\<forall>row\<in>set tm. length row = T"
  shows "transpose (pad_mask k tm) = transpose tm @ replicate k (replicate (length tm) 0)"
proof -
  let ?B = "length tm"
  have 1: "transpose (pad_mask k tm)
      = map (\<lambda>t. map (\<lambda>b. pad_mask k tm ! b ! t) [0..<?B]) [0..<T + k]"
    using assms transpose_rect[of "pad_mask k tm" "T + k"] by (simp add: pad_mask_def)
  have 2: "transpose tm = map (\<lambda>t. map (\<lambda>b. tm ! b ! t) [0..<?B]) [0..<T]"
    using assms by (rule transpose_rect)
  have rowlen: "length (tm ! b) = T" if "b < ?B" for b
    using assms(2) that by simp
  have low: "map (\<lambda>b. pad_mask k tm ! b ! t) [0..<?B] = map (\<lambda>b. tm ! b ! t) [0..<?B]"
    if "t < T" for t
    using that by (intro map_cong refl) (simp add: pad_mask_def nth_append rowlen)
  have high: "map (\<lambda>b. pad_mask k tm ! b ! t) [0..<?B] = replicate ?B 0"
    if "T \<le> t" "t < T + k" for t
    using that by (intro nth_equalityI) (simp_all add: pad_mask_def nth_append rowlen)
  have "[0..<T + k] = [0..<T] @ [T..<T + k]"
    using upt_add_eq_append[of 0 T k] by simp
  then have "transpose (pad_mask k tm)
      = map (\<lambda>t. map (\<lambda>b. pad_mask k tm ! b ! t) [0..<?B]) [0..<T]
        @ map (\<lambda>t. map (\<lambda>b. pad_mask k tm ! b ! t) [0..<?B]) [T..<T + k]"
    unfolding 1 by (simp only: map_append)
  also have "map (\<lambda>t. map (\<lambda>b. pad_mask k tm ! b ! t) [0..<?B]) [0..<T] = transpose tm"
    unfolding 2 by (rule map_cong[OF refl]) (simp add: low)
  also have "map (\<lambda>t. map (\<lambda>b. pad_mask k tm ! b ! t) [0..<?B]) [T..<T + k]
      = replicate k (replicate ?B 0)"
    by (intro nth_equalityI) (simp_all add: high)
  finally show ?thesis .
qed

lemma transpose_pad_tokens:
  assumes "0 < length tgt" and "\<forall>row\<in>set tgt. length row = T"
    and "length padding = length tgt" and "\<forall>row\<in>set padding. length row = k"
  shows "transpose (pad_tokens padding tgt) = transpose tgt @ transpose padding"
proof -
  let ?B = "length tgt"
  let ?p = "pad_tokens padding tgt"
  have lp: "length ?p = ?B" using assms(3) by (simp add: pad_tokens_def)
  have nthp: "?p ! b = tgt ! b @ padding ! b" if "b < ?B" for b
    using that assms(3) by (simp add: pad_tokens_def)
  have rows: "\<forall>row\<in>set ?p. length row = T + k"
  proof
    fix row assume "row \<in> set ?p"
    then obtain b where "b < ?B" "row = ?p ! b" using lp by (auto simp: in_set_conv_nth)
    then show "length row = T + k" using assms nthp by simp
  qed
  have 1: "transpose ?p = map (\<lambda>t. map (\<lambda>b. ?p ! b ! t) [0..<?B]) [0..<T + k]"
    using transpose_rect[of ?p "T + k"] assms(1) lp rows by simp
  have 2: "transpose tgt = map (\<lambda>t. map (\<lambda>b. tgt ! b ! t) [0..<?B]) [0..<T]"
    using assms(1,2) by (rule transpose_rect)
  have 3: "transpose padding = map (\<lambda>t. map (\<lambda>b. padding ! b ! t) [0..<?B]) [0..<k]"
    using transpose_rect[of padding k] assms by simp
  have rowlen: "length (tgt ! b) = T" if "b < ?B" for b
    using assms(2) that by simp
  have low: "map (\<lambda>b. ?p ! b ! t) [0..<?B] = map (\<lambda>b. tgt ! b ! t) [0..<?B]" if "t < T" for t
    using that by (intro map_cong refl) (simp add: nthp nth_append rowlen)
  have high: "map (\<lambda>b. ?p ! b ! (T + t)) [0..<?B] = map (\<lambda>b. padding ! b ! t) [0..<?B]" for t
    by (intro map_cong refl) (simp add: nthp nth_append rowlen)
  have "[0..<T + k] = [0..<T] @ [T..<T + k]"
    using upt_add_eq_append[of 0 T k] by simp
  then have "transpose ?p = map (\<lambda>t. map (\<lambda>b. ?p ! b ! t) [0..<?B]) [0..<T]
        @ map (\<lambda>t. map (\<lambda>b. ?p ! b ! t) [0..<?B]) [T..<T + k]"
    unfolding 1 by (simp only: map_append)
  also have "map (\<lambda>t. map (\<lambda>b. ?p ! b ! t) [0..<?B]) [0..<T] = transpose tgt"
    unfolding 2 by (rule map_cong[OF refl]) (simp add: low)
  also have "map (\<lambda>t. map (\<lambda>b. ?p ! b ! t) [0..<?B]) [T..<T + k] = transpose padding"
    unfolding 3 by (intro nth_equalityI) (simp_all add: high)
  finally show ?thesis .
qed

text \<open>
  \<^bold>\<open>C1.\<close> The training cost is unchanged when fully-masked positions are appended. The
  batch is a valid training batch: \<open>B \<ge> 1\<close> items, targets and target mask of \<open>T \<ge> 1\<close>
  positions, a source mask of \<open>S\<close> positions for every item, and a representation on which
  the sequence generator returns its cost matrix. Appended are, at once or one without the
  other, \<open>k\<close> target positions with mask 0 for every item (under any symbols that have a
  feedback) and any number of source positions with mask 0 (under any representation
  vectors, one per item). Then \<open>Decoder.cost\<close> of the padded batch is \<open>Decoder.cost\<close> of
  the original one.

  The sequence generator is the one modelled from the spec. Its attention gives the
  appended source positions weight 0 and leaves the normalisation as it was, its pass over
  the targets runs forward in time, so that the appended targets change no earlier cost,
  and what it computes at the appended target positions is multiplied by the mask 0 in
  \<open>Decoder.cost\<close>, whose divisor, the batch size, the padding does not change.
\<close>

theorem Decoder_cost_unchanged_by_masked_padding:
  assumes tm: "length tm = B" "0 < B" "\<forall>row\<in>set tm. length row = T" "0 < T"
    and tgt: "length tgt = B" "\<forall>row\<in>set tgt. length row = T"
    and pad: "length tgt_padding = B" "\<forall>row\<in>set tgt_padding. length row = k"
    and fbp: "feedback fbk (shp, concat (transpose tgt_padding)) = Inr fbs"
    and sm: "length sm = B" "\<forall>row\<in>set sm. length row = S"
    and rep: "rep \<noteq> []" "\<forall>x\<in>set rep_padding. length x = B"
    and orig: "sequence_generator_cost_matrix fbk tr br
                 (transpose tm) (transpose tgt) rep (transpose sm) = Inr c"
  shows "Decoder_cost (sequence_generator_cost_matrix fbk tr br) (rep @ rep_padding)
           (pad_mask (length rep_padding) sm) (pad_tokens tgt_padding tgt) (pad_mask k tm)
       = Decoder_cost (sequence_generator_cost_matrix fbk tr br) rep sm tgt tm"
proof -
  let ?cm = "sequence_generator_cost_matrix fbk tr br"
  let ?j = "length rep_padding"
  have Ttgt: "transpose tgt = map (\<lambda>t. map (\<lambda>b. tgt ! b ! t) [0..<B]) [0..<T]"
    using tm tgt transpose_rect[of tgt T] by simp
  have Tpad: "transpose tgt_padding = map (\<lambda>t. map (\<lambda>b. tgt_padding ! b ! t) [0..<B]) [0..<k]"
    using tm pad transpose_rect[of tgt_padding k] by simp
  have ne: "transpose tgt \<noteq> []" and ly: "length (transpose tgt) = T"
    and hd: "B = length (hd (transpose tgt))"
    using tm(2,4) unfolding Ttgt by (simp_all add: hd_map upt_conv_Cons)
  have m': "\<forall>r\<in>set (replicate k (replicate B (0::real))). length r = B"
    and lm': "length (replicate k (replicate B (0::real))) = length (transpose tgt_padding)"
    and y': "\<forall>r\<in>set (transpose tgt_padding). length r = B"
    unfolding Tpad by auto
  from sequence_generator_cost_matrix_padding[OF orig ne rep(1) hd m' lm' y' fbp rep(2)]
  obtain c' where c': "?cm (transpose tm @ replicate k (replicate B 0))
        (transpose tgt @ transpose tgt_padding) (rep @ rep_padding)
        (transpose sm @ replicate ?j (replicate B 0)) = Inr c'"
    and tk: "take T c' = c" and lc': "length c' = T + k" and rc': "\<forall>r\<in>set c'. length r = B"
    unfolding ly Tpad by auto
  have lib': "?cm (transpose (pad_mask k tm)) (transpose (pad_tokens tgt_padding tgt))
      (rep @ rep_padding) (transpose (pad_mask ?j sm)) = Inr c'"
    using c' tm tgt pad sm
    by (simp add: transpose_pad_mask[of tm T] transpose_pad_mask[of sm S]
        transpose_pad_tokens[of tgt T tgt_padding k])
  have lc: "length c = T" and rc: "\<forall>r\<in>set c. length r = B"
    using tk lc' rc' by (auto dest: in_set_takeD)
  show ?thesis
    by (rule Decoder_cost_padding[where cm = ?cm, OF tm(1,2,3) orig lib' lc rc lc' rc' tk])
qed

text \<open>
  The small decoder, one masked position appended to source and target of both items
  (representation vectors of 9s and 8s, symbols 2 and 1): the cost is 9 before and after.
\<close>

theorem Decoder_cost_unchanged_by_masked_padding_witness:
  "Decoder_cost demo_cost_matrix (demo_words @ [[[9, 9, 9, 9], [8, 8, 8, 8]]])
     (pad_mask 1 demo_marks_mask) (pad_tokens [[2], [1]] demo_marks) (pad_mask 1 demo_marks_mask)
     = Inr 9
   \<and> Decoder_cost demo_cost_matrix demo_words demo_marks_mask demo_marks demo_marks_mask = Inr 9"
proof -
  have fb: "feedback demo_feedback ([1, 2], concat (transpose [[2], [1]]))
      = Inr ([1, 2, 2], [[1, 1], [0, 1]])"
    by (simp add: demo_feedback_eq feedback_def lookup_apply_def)
  have "Decoder_cost (sequence_generator_cost_matrix demo_feedback demo_transition demo_bricks)
        (demo_words @ [[[9, 9, 9, 9], [8, 8, 8, 8]]])
        (pad_mask (length [[[9, 9, 9, 9], [8, 8, 8, 8::real]]]) demo_marks_mask)
        (pad_tokens [[2], [1]] demo_marks) (pad_mask 1 demo_marks_mask)
      = Decoder_cost (sequence_generator_cost_matrix demo_feedback demo_transition demo_bricks)
          demo_words demo_marks_mask demo_marks demo_marks_mask"
    by (rule Decoder_cost_unchanged_by_masked_padding[where B = 2 and T = 2 and k = 1 and S = 2,
          OF _ _ _ _ _ _ _ _ fb _ _ _ _ demo_words_costs[unfolded demo_cost_matrix_def]])
      (simp_all add: demo_marks_mask_def demo_marks_def demo_words_def)
  then show ?thesis
    using demo_words_cost
    by (simp add: demo_cost_matrix_def use_decoder_on_representations_cost_def)
qed

subsection \<open>Feedback and initial states\<close>

lemma lookup_apply_in_range:
  assumes "\<forall>v\<in>set idx. 0 \<le> v \<and> v < int (length W)"
  shows "lookup_apply W idx = Inr (map (\<lambda>v. W ! nat v) idx)"
proof -
  have "list_all (\<lambda>i. - int (length W) \<le> i \<and> i < int (length W)) idx"
    using assms by (auto simp: list_all_iff)
  moreover have "map (\<lambda>i. W ! nat (if i < 0 then int (length W) + i else i)) idx
      = map (\<lambda>v. W ! nat v) idx"
    using assms by (intro map_cong) auto
  ultimately show ?thesis by (simp add: lookup_apply_def Let_def)
qed

lemma feedback_rows:
  assumes od: "output_dim brick = 0"
    and ne: "lookup_W brick \<noteq> []"
    and rows: "\<forall>row\<in>set (lookup_W brick). length row = feedback_dim brick"
    and rng: "\<forall>v\<in>set flat. v < int (length (lookup_W brick))"
  shows "feedback brick (shp, flat) =
     Inr (shp @ [feedback_dim brick],
          map (\<lambda>v. if v < 0 then replicate (feedback_dim brick) 0 else lookup_W brick ! nat v) flat)"
proof -
  let ?W = "lookup_W brick"
  let ?z = "map (\<lambda>v. if v < 0 then 0 else v) flat"
  have "\<forall>v\<in>set ?z. 0 \<le> v \<and> v < int (length ?W)"
    using ne rng by auto
  then have la: "lookup_apply ?W ?z = Inr (map (\<lambda>v. ?W ! nat v) ?z)"
    by (rule lookup_apply_in_range)
  have ok: "list_all (\<lambda>row. length row = feedback_dim brick) (map (\<lambda>v. ?W ! nat v) ?z)"
    using ne rng rows by (auto simp: list_all_iff)
  have "map2 (\<lambda>v row. if v < 0 then replicate (feedback_dim brick) 0 else row) flat
          (map (\<lambda>v. ?W ! nat v) ?z)
      = map (\<lambda>v. if v < 0 then replicate (feedback_dim brick) 0 else ?W ! nat v) flat"
    by (intro nth_equalityI) auto
  with la ok od show ?thesis
    by (simp add: feedback_def Let_def)
qed

text \<open>
  \<^bold>\<open>C5.\<close> For every outputs tensor whose non-negative entries are indices of the lookup
  table (which has at least one row, each of \<open>feedback_dim\<close> entries), the feedback of a
  negative entry, the sentinel "no previous token", is the zero vector of \<open>feedback_dim\<close>
  entries, and the feedback of an entry \<open>v \<ge> 0\<close> is row \<open>v\<close> of the table. In
  particular the feedback of the emitter's initial outputs, which the first decoding step
  is fed, is zero for every batch item.
\<close>

theorem feedback_zero_for_sentinel:
  assumes "output_dim brick = 0"
    and "lookup_W brick \<noteq> []"
    and "\<forall>row\<in>set (lookup_W brick). length row = feedback_dim brick"
    and "\<forall>v\<in>set flat. v < int (length (lookup_W brick))"
  shows "feedback brick (shp, flat) =
           Inr (shp @ [feedback_dim brick],
                map (\<lambda>v. if v < 0 then replicate (feedback_dim brick) 0
                          else lookup_W brick ! nat v) flat)
       \<and> feedback brick (initial_outputs batch_size) =
           Inr ([batch_size, feedback_dim brick],
                replicate batch_size (replicate (feedback_dim brick) 0))"
proof -
  have "feedback brick ([batch_size], replicate batch_size (- 1)) =
      Inr ([batch_size] @ [feedback_dim brick],
           map (\<lambda>v. if v < 0 then replicate (feedback_dim brick) 0
                     else lookup_W brick ! nat v) (replicate batch_size (- 1)))"
    using assms(1-3) by (intro feedback_rows) auto
  then have "feedback brick (initial_outputs batch_size) =
      Inr ([batch_size, feedback_dim brick],
           replicate batch_size (replicate (feedback_dim brick) 0))"
    by (simp add: initial_outputs_def initial_output_def map_replicate)
  with feedback_rows[OF assms] show ?thesis by simp
qed

text \<open>
  The small decoder's table on a 2 by 2 tensor with two sentinels, and on the initial
  outputs of a batch of two.
\<close>

theorem feedback_zero_for_sentinel_witness:
  "feedback demo_feedback ([2, 2], [- 1, 2, 0, - 1]) =
     Inr ([2, 2, 2], [[0, 0], [1, 1], [1, 0], [0, 0]])
   \<and> feedback demo_feedback (initial_outputs 2) = Inr ([2, 2], [[0, 0], [0, 0]])"
  using feedback_zero_for_sentinel[of demo_feedback "[- 1, 2, 0, - 1]" "[2, 2]" 2]
  by (simp add: demo_feedback_eq numeral_2_eq_2)

lemma linear_apply_ok:
  assumes "length x = length W" and "\<forall>row\<in>set W. length row = length b"
  shows "linear_apply W b x =
     Inr (map (\<lambda>j. (\<Sum>i<length W. x ! i * W ! i ! j) + b ! j) [0..<length b])"
  using assms by (simp add: linear_apply_def list_all_iff sum_list_map2_nth[of x "length W" W])

lemma last_features_nth:
  assumes "0 < k" and "k \<le> length xs"
  shows "length (last_features k xs) = k"
    and "i < k \<Longrightarrow> last_features k xs ! i = xs ! (length xs - k + i)"
  using assms by (simp_all add: last_features_def)

lemma initial_states_value:
  assumes att: "attended = a0 # rest"
    and k: "0 < attended_dim tr" and W: "length (init_W tr) = attended_dim tr"
    and Wrows: "\<forall>row\<in>set (init_W tr). length row = length (init_b tr)"
    and feat: "\<forall>x\<in>set a0. attended_dim tr \<le> length x"
  shows "initial_states tr batch_size attended =
     Inr (map (\<lambda>x. map (\<lambda>j. tanh ((\<Sum>i<attended_dim tr.
                 x ! (length x - attended_dim tr + i) * init_W tr ! i ! j) + init_b tr ! j))
               [0..<length (init_b tr)]) a0)"
proof -
  let ?k = "attended_dim tr"
  let ?f = "\<lambda>x. map (\<lambda>j. (\<Sum>i<?k. x ! (length x - ?k + i) * init_W tr ! i ! j) + init_b tr ! j)
               [0..<length (init_b tr)]"
  have "linear_apply (init_W tr) (init_b tr) (last_features ?k x) = Inr (?f x)"
    if "x \<in> set a0" for x
  proof -
    have le: "?k \<le> length x" using feat that by simp
    have "linear_apply (init_W tr) (init_b tr) (last_features ?k x) =
        Inr (map (\<lambda>j. (\<Sum>i<length (init_W tr). last_features ?k x ! i * init_W tr ! i ! j)
                       + init_b tr ! j) [0..<length (init_b tr)])"
      using Wrows W last_features_nth(1)[OF k le] by (intro linear_apply_ok) simp_all
    also have "\<dots> = Inr (?f x)"
      using W last_features_nth(2)[OF k le] by simp
    finally show ?thesis .
  qed
  then have "map (linear_apply (init_W tr) (init_b tr)) (map (last_features ?k) a0)
      = map (\<lambda>x. Inr (?f x)) a0"
    by simp
  then have "collect (map (linear_apply (init_W tr) (init_b tr)) (map (last_features ?k) a0))
      = Inr (map ?f a0)"
    by (simp only: collect_Inr)
  then show ?thesis
    by (simp add: initial_states_def att mlp_apply_def comp_def)
qed

text \<open>
  \<^bold>\<open>C6.\<close> The decoder's transition reads \<open>state_dim\<close> features. For every
  non-empty representation whose vectors at position 0 have at least \<open>state_dim\<close>
  features (and an initial transformer of \<open>state_dim\<close> inputs and outputs), the initial
  state of batch item \<open>i\<close> is, in every component \<open>j\<close>, the tanh of the affine map
  of the last \<open>state_dim\<close> features (the backward direction's) of the representation at
  position 0: it is computed from the representation.
\<close>

theorem initial_states_tanh_affine:
  assumes "attended \<noteq> []"
    and "0 < d" and "length W = d" and "\<forall>row\<in>set W. length row = d" and "length b = d"
    and "\<forall>x\<in>set (attended ! 0). d \<le> length x"
  shows "\<exists>states. initial_states (Decoder_transition d W b) batch_size attended = Inr states
       \<and> length states = length (attended ! 0)
       \<and> (\<forall>i<length (attended ! 0). length (states ! i) = d
            \<and> (\<forall>j<d. states ! i ! j =
                 tanh ((\<Sum>k<d. attended ! 0 ! i ! (length (attended ! 0 ! i) - d + k)
                                * W ! k ! j)
                       + b ! j)))"
proof -
  let ?tr = "Decoder_transition d W b"
  obtain a0 rest where att: "attended = a0 # rest"
    using assms(1) by (cases attended) auto
  have "initial_states ?tr batch_size attended =
     Inr (map (\<lambda>x. map (\<lambda>j. tanh ((\<Sum>i<attended_dim ?tr.
                 x ! (length x - attended_dim ?tr + i) * init_W ?tr ! i ! j) + init_b ?tr ! j))
               [0..<length (init_b ?tr)]) a0)"
    using assms(2-6)
    by (intro initial_states_value[OF att]) (simp_all add: att Decoder_transition_def)
  then show ?thesis
    using assms(5) by (simp add: att Decoder_transition_def)
qed

text \<open>
  The small decoder's initial transformer is the identity followed by tanh. Of the
  representation vectors (5, 5, 1, 0) and (7, 7, 0, 0) only the last two features are
  read: the states are (tanh 1, 0) and (0, 0), different for the two items.
\<close>

theorem initial_states_tanh_affine_witness:
  "\<exists>states. initial_states demo_transition 2 [[[5, 5, 1, 0], [7, 7, 0, 0]]] = Inr states
     \<and> length states = 2 \<and> states ! 0 ! 0 = tanh 1 \<and> states ! 1 ! 0 = 0
     \<and> states ! 0 \<noteq> states ! 1"
proof -
  from initial_states_tanh_affine[of "[[[5, 5, 1, 0], [7, 7, 0, 0]]]" 2 "[[1, 0], [0, 1]]"
      "[0, 0]" 2]
  obtain states
    where s: "initial_states demo_transition 2 [[[5, 5, 1, 0], [7, 7, 0, 0]]] = Inr states"
    and len: "length states = 2"
    and val: "\<forall>i<2. length (states ! i) = 2 \<and> (\<forall>j<2. states ! i ! j =
        tanh ((\<Sum>k<2. [[5, 5, 1, 0], [7, 7, 0, 0]] ! i
                          ! (length ([[5, 5, 1, 0], [7, 7, 0, 0::real]] ! i) - 2 + k)
                 * [[1, 0], [0, 1]] ! k ! j) + [0, 0] ! j))"
    by (auto simp: demo_transition_def)
  have "states ! 0 ! 0 = tanh 1"
    using val by (simp add: lessThan_nat_numeral lessThan_Suc)
  moreover have "states ! 1 ! 0 = 0"
    using val by (simp add: lessThan_nat_numeral lessThan_Suc)
  moreover have "tanh (1::real) \<noteq> 0" by simp
  ultimately show ?thesis using s len by (intro exI[of _ states]) auto
qed

subsection \<open>Generation\<close>

lemma length_scan: "length (scan step n t s y a am) = n"
  by (induction n arbitrary: t s y) (auto split: prod.splits)

lemma scan_nth:
  "i < n \<Longrightarrow> scan step n t s y a am ! i =
     (case (if i = 0 then (s, y) else scan step n t s y a am ! (i - 1)) of
        (s', y') \<Rightarrow> step (t + i) s' y' a am)"
proof (induction n arbitrary: t s y i)
  case 0
  then show ?case by simp
next
  case (Suc n)
  obtain s1 y1 where st: "step t s y a am = (s1, y1)"
    by (cases "step t s y a am")
  show ?case
  proof (cases i)
    case 0
    then show ?thesis by (simp add: st)
  next
    case (Suc j)
    then have j: "j < n" using Suc.prems by simp
    show ?thesis
      using Suc.IH[OF j, of "Suc t" s1 y1] by (simp add: st Suc nth_Cons split: nat.splits)
  qed
qed

lemma Decoder_generate_scan:
  assumes "representation' = a0 # rest"
    and "initial_states tr (length a0) representation' = Inr states"
  shows "Decoder_generate tr step representation' =
     Inr (scan step (2 * length representation') 0 states (initial_outputs (length a0))
            representation'
            (transpose (replicate (length a0) (replicate (length representation') 1))))"
  using assms
  by (simp add: Decoder_generate_def sequence_generator_generate_def Let_def del: scan.simps)

text \<open>
  \<^bold>\<open>C4.\<close> For every representation of at least one source position (on which the
  initial states are defined: vectors of at least \<open>attended_dim\<close> features at position 0),
  and for every step function, so whatever symbols the steps emit, \<open>Decoder.generate\<close>
  is the run of exactly \<open>2 * source_length\<close> decode steps from the initial states and the
  initial outputs, under a source mask of ones. The result has \<open>2 * source_length\<close>
  entries, and so has the token sequence. Entry \<open>i\<close> is what step \<open>i\<close> returns on the
  states and outputs of entry \<open>i - 1\<close> (of the start, for \<open>i = 0\<close>): every step is
  taken, also after a step that emitted an end-of-sequence symbol.
\<close>

theorem Decoder_generate_runs_twice_source_length_steps:
  assumes "representation' \<noteq> []"
    and "0 < attended_dim tr" and "length (init_W tr) = attended_dim tr"
    and "\<forall>row\<in>set (init_W tr). length row = length (init_b tr)"
    and "\<forall>x\<in>set (representation' ! 0). attended_dim tr \<le> length x"
    and "batch_size = length (representation' ! 0)"
    and "ones = transpose (replicate batch_size (replicate (length representation') 1))"
  shows "\<exists>states results.
           initial_states tr batch_size representation' = Inr states
         \<and> Decoder_generate tr step representation' = Inr results
         \<and> results = scan step (2 * length representation') 0 states
                       (initial_outputs batch_size) representation' ones
         \<and> length results = 2 * length representation'
         \<and> length (generated_outputs results) = 2 * length representation'
         \<and> (\<forall>i<2 * length representation'.
              results ! i =
                (case (if i = 0 then (states, initial_outputs batch_size)
                       else results ! (i - 1)) of
                   (s, y) \<Rightarrow> step i s y representation' ones))"
proof -
  obtain a0 rest where att: "representation' = a0 # rest"
    using assms(1) by (cases representation') auto
  have bs: "batch_size = length a0"
    using assms(6) by (simp add: att)
  obtain states where st: "initial_states tr batch_size representation' = Inr states"
    using assms(2-5) initial_states_value[OF att, of tr batch_size] by (simp add: att)
  define results where "results = scan step (2 * length representation') 0 states
      (initial_outputs batch_size) representation' ones"
  have gen: "Decoder_generate tr step representation' = Inr results"
    using Decoder_generate_scan[OF att, of tr states step] st
    by (simp add: results_def bs assms(7))
  have len: "length results = 2 * length representation'"
    by (simp add: results_def length_scan)
  have steps: "results ! i =
      (case (if i = 0 then (states, initial_outputs batch_size) else results ! (i - 1)) of
         (s, y) \<Rightarrow> step i s y representation' ones)"
    if "i < 2 * length representation'" for i
    using scan_nth[OF that, of step 0 states "initial_outputs batch_size" representation' ones]
    by (simp add: results_def)
  from st gen len steps show ?thesis
    by (intro exI[of _ states] exI[of _ results]) (simp add: results_def generated_outputs_def)
qed

text \<open>
  The small decoder with the step that cycles through the symbols: on the two source
  positions it takes four steps. The second step emits symbol 0 for both items (an end
  marker, say), and the third and fourth steps are taken all the same.
\<close>

theorem Decoder_generate_runs_twice_source_length_steps_witness:
  "\<exists>results. Decoder_generate demo_transition demo_cycling_step demo_words = Inr results
     \<and> length results = 4
     \<and> generated_outputs results = [[1, 1], [0, 0], [2, 2], [1, 1]]
     \<and> map fst results = [[[1, 1], [1, 1]], [[2, 2], [2, 2]], [[3, 3], [3, 3]], [[4, 4], [4, 4]]]"
proof -
  from Decoder_generate_runs_twice_source_length_steps[of demo_words demo_transition 2
      "transpose (replicate 2 (replicate (length demo_words) 1))" demo_cycling_step]
  obtain states results
    where s: "initial_states demo_transition 2 demo_words = Inr states"
      and r: "Decoder_generate demo_transition demo_cycling_step demo_words = Inr results"
      and v: "results = scan demo_cycling_step (2 * length demo_words) 0 states
                (initial_outputs 2) demo_words
                (transpose (replicate 2 (replicate (length demo_words) 1)))"
      and l: "length results = 2 * length demo_words"
    by (auto simp: demo_words_def demo_transition_eq)
  have "states = [[0, 0], [0, 0]]"
    using s
    by (simp add: demo_words_def demo_transition_eq initial_states_def mlp_apply_def
        linear_apply_def last_features_def upt_conv_Cons)
  then have "results = [([[1, 1], [1, 1]], ([2], [1, 1])), ([[2, 2], [2, 2]], ([2], [0, 0])),
      ([[3, 3], [3, 3]], ([2], [2, 2])), ([[4, 4], [4, 4]], ([2], [1, 1]))]"
    using v
    by (simp add: demo_words_def demo_cycling_step_def initial_outputs_def initial_output_def
        eval_nat_numeral)
  with r show ?thesis by (simp add: generated_outputs_def)
qed

subsection \<open>Assembly\<close>

lemma sequence_generator_cost_matrix_refuses:
  "length a \<noteq> length am \<Longrightarrow>
     sequence_generator_cost_matrix fbk tr br m y a am = Inl ShapeMismatchError"
  by (auto simp: sequence_generator_cost_matrix_def same_shape_def Let_def
      dest: list_all2_lengthD)

lemma demo_words_costs_unmasked_source:
  "demo_cost_matrix (transpose demo_marks_mask) (transpose demo_marks) demo_words
     (transpose [[1, 1], [1, 1]]) = Inr [[9 / 2, 11 / 2], [15 / 2, 15 / 2]]"
  by (simp add: demo_defs)

lemma demo_words_cost_unmasked_source:
  "Decoder_cost demo_cost_matrix demo_words [[1, 1], [1, 1]] demo_marks demo_marks_mask
     = Inr (35 / 4)"
proof -
  have "Decoder_cost demo_cost_matrix demo_words [[1, 1], [1, 1]] demo_marks demo_marks_mask =
      Inr (sum_all (map (\<lambda>t. map (\<lambda>b. [[9 / 2, 11 / 2], [15 / 2, 15 / 2]] ! t ! b
              * demo_marks_mask ! b ! t) [0..<2]) [0..<2]) / real 2)"
    by (rule Decoder_cost_value[where cm = demo_cost_matrix,
          OF demo_words_costs_unmasked_source])
      (simp_all add: demo_marks_mask_def)
  then show ?thesis
    by (simp add: demo_marks_mask_def sum_all_def upt_conv_Cons)
qed

text \<open>
  \<^bold>\<open>C7.\<close> The assembled training computation is \<open>Decoder.cost\<close> with the
  punctuation-marks mask in both mask arguments, whatever the sequence generator: the
  generator is called with the transposed punctuation-marks mask as its \<open>mask\<close> and as its
  \<open>attended_mask\<close>, so the attention over the source positions is masked by the validity of
  the target positions, and the cost is the generator's cost matrix times that same mask,
  summed, over the batch size. With a generator that refuses (with some error \<open>e\<close>) an
  attended mask of another length than the attended sequence, as the attention's product of
  weights and mask does, the computation therefore fails with \<open>e\<close> unless the
  representation has as many positions as the padded targets (\<open>T\<close>).
\<close>

theorem use_decoder_passes_marks_mask_as_source_mask:
  assumes lib: "\<And>m y a am. length a \<noteq> length am \<Longrightarrow> cm m y a am = Inl e"
    and "0 < length pmm" and "\<forall>row\<in>set pmm. length row = T"
  shows "use_decoder_on_representations_cost cm rep pm pmm = Decoder_cost cm rep pmm pm pmm
       \<and> use_decoder_on_representations_cost cm rep pm pmm =
           (case cm (transpose pmm) (transpose pm) rep (transpose pmm) of
              Inl err \<Rightarrow> Inl err
            | Inr cost \<Rightarrow>
                (case mul_elemwise cost (transpose pmm) of
                   Inl err \<Rightarrow> Inl err
                 | Inr masked \<Rightarrow> Inr (sum_all masked / real (length pmm))))
       \<and> (length rep \<noteq> T \<longrightarrow> use_decoder_on_representations_cost cm rep pm pmm = Inl e)"
proof -
  have "length (transpose pmm) = T"
    using assms(2,3) by (simp add: transpose_rect[of pmm T])
  then have "length rep \<noteq> T \<Longrightarrow>
      cm (transpose pmm) (transpose pm) rep (transpose pmm) = Inl e"
    using lib by simp
  then show ?thesis
    by (auto simp: use_decoder_on_representations_cost_def Decoder_cost_def Let_def)
qed

text \<open>
  The small decoder. On its representation of two positions the assembled cost is 9, the
  cost under the punctuation-marks mask as source mask; under a source mask of ones the
  cost is 35/4, so the mask that is passed matters. On a representation of four
  positions, with targets padded to two, the generator refuses.
\<close>

theorem use_decoder_passes_marks_mask_as_source_mask_witness:
  "use_decoder_on_representations_cost demo_cost_matrix demo_words demo_marks demo_marks_mask
     = Decoder_cost demo_cost_matrix demo_words demo_marks_mask demo_marks demo_marks_mask
   \<and> use_decoder_on_representations_cost demo_cost_matrix demo_words demo_marks demo_marks_mask
     = Inr 9
   \<and> Decoder_cost demo_cost_matrix demo_words [[1, 1], [1, 1]] demo_marks demo_marks_mask
     = Inr (35 / 4)
   \<and> use_decoder_on_representations_cost demo_cost_matrix (demo_words @ demo_audio)
       demo_marks demo_marks_mask = Inl ShapeMismatchError"
proof -
  have lib: "\<And>m y a am. length a \<noteq> length am \<Longrightarrow>
      demo_cost_matrix m y a am = Inl ShapeMismatchError"
    unfolding demo_cost_matrix_def by (rule sequence_generator_cost_matrix_refuses)
  have len: "length (demo_words @ demo_audio) \<noteq> 2"
    by (simp add: demo_words_def demo_audio_def)
  have pos: "0 < length demo_marks_mask"
    and rows: "\<forall>row\<in>set demo_marks_mask. length row = 2"
    by (simp_all add: demo_marks_mask_def)
  have 1: "use_decoder_on_representations_cost demo_cost_matrix demo_words demo_marks
        demo_marks_mask
      = Decoder_cost demo_cost_matrix demo_words demo_marks_mask demo_marks demo_marks_mask"
    using use_decoder_passes_marks_mask_as_source_mask[where cm = demo_cost_matrix
        and rep = demo_words and pm = demo_marks, OF lib pos rows]
    by blast
  have 2: "use_decoder_on_representations_cost demo_cost_matrix (demo_words @ demo_audio)
       demo_marks demo_marks_mask = Inl ShapeMismatchError"
    using use_decoder_passes_marks_mask_as_source_mask[where cm = demo_cost_matrix
        and rep = "demo_words @ demo_audio" and pm = demo_marks, OF lib pos rows] len
    by blast
  from 1 2 demo_words_cost demo_words_cost_unmasked_source show ?thesis
    by simp
qed

text \<open>
  \<^bold>\<open>C10.\<close> When the decoder's cost on the word representation is \<open>words_cost\<close> and
  its cost on the audio representation is \<open>audio_cost\<close>, the cost of
  \<open>create_multitask_model\<close> is \<open>words_cost + 2 * audio_cost\<close>; it is the plain sum of
  the two only when \<open>audio_cost\<close> is 0.
\<close>

theorem create_multitask_model_cost_counts_audio_twice:
  assumes "use_decoder_on_representations_cost cm words_rep pm pmm = Inr words_cost"
    and "use_decoder_on_representations_cost cm audio_rep pm pmm = Inr audio_cost"
  shows "create_multitask_model_cost cm words_rep audio_rep pm pmm
           = Inr (words_cost + 2 * audio_cost)
       \<and> (create_multitask_model_cost cm words_rep audio_rep pm pmm
             = Inr (words_cost + audio_cost) \<longleftrightarrow> audio_cost = 0)"
  using assms by (simp add: create_multitask_model_cost_def Let_def)

text \<open>The small decoder: word cost 9, audio cost 6, multitask cost 21 and not 15.\<close>

theorem create_multitask_model_cost_counts_audio_twice_witness:
  "create_multitask_model_cost demo_cost_matrix demo_words demo_audio demo_marks demo_marks_mask
     = Inr 21
   \<and> create_multitask_model_cost demo_cost_matrix demo_words demo_audio demo_marks
       demo_marks_mask \<noteq> Inr (9 + 6)"
  using create_multitask_model_cost_counts_audio_twice[OF demo_words_cost demo_audio_cost]
  by simp

lemma max3_elementwise:
  assumes "same_shape3 words audio"
  shows "max3 words audio = elementwise_max words audio"
proof -
  have len: "length words = length audio"
    using assms by (simp add: same_shape3_def list_all2_lengthD)
  have sh: "same_shape (words ! t) (audio ! t)" if "t < length words" for t
    using assms that by (simp add: same_shape3_def list_all2_conv_all_nth)
  have len2: "length (words ! t) = length (audio ! t)" if "t < length words" for t
    using sh[OF that] by (simp add: same_shape_def list_all2_lengthD)
  have len3: "length (words ! t ! b) = length (audio ! t ! b)"
    if "t < length words" "b < length (words ! t)" for t b
    using sh[OF that(1)] that(2) by (simp add: same_shape_def list_all2_conv_all_nth)
  show ?thesis
    unfolding max3_def elementwise_max_def
    by (simp add: map2_nth_eq len len2 len3 del: upt_Suc)
qed

lemma merge_representations_max:
  "merge_representations words audio =
     (if same_shape3 words audio then Inr (elementwise_max words audio) else Inl ValueError)"
  by (simp add: merge_representations_def stack_def max_axis0_def max3_elementwise)

text \<open>
  \<^bold>\<open>C8.\<close> When the configured input is \<open>both\<close> (and the word and the audio
  representation have one shape), the representation the decoder is given, for the
  training cost and for the generated samples, is the elementwise maximum of the two: at
  every (position, batch, feature) index the larger of the word and the audio entry.
\<close>

theorem create_model_fuses_by_elementwise_max:
  assumes "input cfg = ''both''"
    and "same_shape3 (words_training_representation reps) (audio_training_representation reps)"
    and "same_shape3 (words_sampling_representation reps) (audio_sampling_representation reps)"
  shows "create_model_cost cfg cm reps pm pmm =
           Decoder_cost cm
             (elementwise_max (words_training_representation reps)
                (audio_training_representation reps)) pmm pm pmm
       \<and> create_model_samples cfg tr step reps =
           Decoder_generate tr step
             (elementwise_max (words_sampling_representation reps)
                (audio_sampling_representation reps))"
  using assms
  by (simp add: create_model_cost_def create_model_samples_def create_model_representations_def
      merge_representations_max use_decoder_on_representations_cost_def)

text \<open>
  The small decoder: the fused representation takes two entries from the audio
  representation (4 over 1, 3 over 2) and the others from the word representation.
\<close>

theorem create_model_fuses_by_elementwise_max_witness:
  "create_model_cost demo_config demo_cost_matrix demo_representations demo_marks demo_marks_mask
     = Decoder_cost demo_cost_matrix [[[4, 2, 0, 0], [3, 1, 0, 0]], [[2, 2, 1, 1], [0, 1, 3, 0]]]
         demo_marks_mask demo_marks demo_marks_mask
   \<and> create_model_samples demo_config demo_transition demo_step demo_representations
     = Decoder_generate demo_transition demo_step
         [[[4, 2, 0, 0], [3, 1, 0, 0]], [[2, 2, 1, 1], [0, 1, 3, 0]]]"
proof -
  have sh: "same_shape3 demo_words demo_audio"
    by (simp add: same_shape3_def same_shape_def demo_words_def demo_audio_def)
  have mx: "elementwise_max demo_words demo_audio =
      [[[4, 2, 0, 0], [3, 1, 0, 0]], [[2, 2, 1, 1], [0, 1, 3, 0]]]"
    by (simp add: elementwise_max_def demo_words_def demo_audio_def upt_conv_Cons)
  from create_model_fuses_by_elementwise_max[of demo_config demo_representations
      demo_cost_matrix demo_marks demo_marks_mask demo_transition demo_step]
  show ?thesis
    using sh mx by (simp add: demo_config_def demo_representations_def)
qed

subsection \<open>Parameter report\<close>

lemma fold_update_props:
  "distinct (map fst al) \<Longrightarrow>
     distinct (map fst (fold (\<lambda>kv. AList.update (fst kv) (snd kv)) d al))
   \<and> map_of (fold (\<lambda>kv. AList.update (fst kv) (snd kv)) d al) = map_of (rev d @ al)"
proof (induction d arbitrary: al)
  case Nil
  then show ?case by simp
next
  case (Cons kv d)
  have d: "distinct (map fst (AList.update (fst kv) (snd kv) al))"
    using Cons.prems by (simp add: distinct_update)
  have m: "map_of (AList.update (fst kv) (snd kv) al) = map_of (kv # al)"
    by (cases kv) (simp add: update_conv')
  show ?case
    using Cons.IH[OF d] by (auto simp: m map_add_def map_of_append fun_eq_iff split: option.splits)
qed

lemma merge_props:
  "distinct (map fst (merge dicts)) \<and> map_of (merge dicts) = map_of (rev (concat dicts))"
proof -
  have "distinct (map fst al) \<Longrightarrow>
      distinct (map fst (fold (\<lambda>d rv. fold (\<lambda>kv. AList.update (fst kv) (snd kv)) d rv) dicts al))
    \<and> map_of (fold (\<lambda>d rv. fold (\<lambda>kv. AList.update (fst kv) (snd kv)) d rv) dicts al)
        = map_of (rev (concat dicts) @ al)" for al
  proof (induction dicts arbitrary: al)
    case Nil
    then show ?case by simp
  next
    case (Cons d ds)
    from fold_update_props[OF Cons.prems, of d]
    have 1: "distinct (map fst (fold (\<lambda>kv. AList.update (fst kv) (snd kv)) d al))"
      and 2: "map_of (fold (\<lambda>kv. AList.update (fst kv) (snd kv)) d al) = map_of (rev d @ al)"
      by simp_all
    show ?case
      using Cons.IH[OF 1] 2 by (simp add: map_of_append)
  qed
  from this[of "[]"] show ?thesis by (simp add: merge_def)
qed

lemma fold_add: "fold (\<lambda>kv n. n + f kv) xs (a::nat) = a + sum_list (map f xs)"
  by (induction xs arbitrary: a) simp_all

lemma dom_merge: "fst ` set (merge dicts) = fst ` set (concat dicts)"
proof -
  have "dom (map_of (merge dicts)) = dom (map_of (rev (concat dicts)))"
    using merge_props[of dicts] by simp
  then show ?thesis by (simp add: dom_map_of_conv_image_fst)
qed

lemma print_parameteters_total:
  "snd (print_parameteters models) =
     (\<Sum>name\<in>fst ` set (concat models). prod_list (the (map_of (rev (concat models)) name)))"
proof -
  let ?d = "merge models"
  have dist: "distinct (map fst ?d)" and mo: "map_of ?d = map_of (rev (concat models))"
    using merge_props[of models] by simp_all
  have "snd (print_parameteters models) = sum_list (map (\<lambda>kv. prod_list (snd kv)) ?d)"
    by (simp add: print_parameteters_def Let_def fold_add)
  also have "\<dots> = sum_list (map (\<lambda>k. prod_list (the (map_of ?d k))) (map fst ?d))"
  proof -
    have "prod_list (snd kv) = prod_list (the (map_of ?d (fst kv)))" if "kv \<in> set ?d" for kv
      using dist that by (cases kv) simp
    then show ?thesis by (simp add: comp_def cong: map_cong)
  qed
  also have "\<dots> = (\<Sum>k\<in>set (map fst ?d). prod_list (the (map_of ?d k)))"
    by (rule sum_list_distinct_conv_sum_set[OF dist])
  also have "\<dots> = (\<Sum>name\<in>fst ` set (concat models).
      prod_list (the (map_of (rev (concat models)) name)))"
    by (simp add: mo dom_merge)
  finally show ?thesis .
qed

lemma alist_eqI:
  assumes "distinct (map fst xs)" and "map fst xs = map fst ys" and "map_of xs = map_of ys"
  shows "xs = ys"
proof (rule nth_equalityI)
  show len: "length xs = length ys"
    using assms(2) by (metis length_map)
  fix i assume i: "i < length xs"
  have dy: "distinct (map fst ys)" using assms(1,2) by simp
  have "map_of xs (fst (xs ! i)) = Some (snd (xs ! i))"
    using assms(1) i by (intro map_of_is_SomeI) simp_all
  moreover have "map_of ys (fst (ys ! i)) = Some (snd (ys ! i))"
    using dy i len by (intro map_of_is_SomeI) simp_all
  moreover have "fst (xs ! i) = fst (ys ! i)"
    using assms(2) i len by (metis nth_map)
  ultimately show "xs ! i = ys ! i"
    using assms(3) by (simp add: prod_eq_iff)
qed

lemma fold_update_keys:
  "fst ` set d \<subseteq> fst ` set al \<Longrightarrow>
     map fst (fold (\<lambda>kv. AList.update (fst kv) (snd kv)) d al) = map fst al"
proof (induction d arbitrary: al)
  case Nil
  then show ?case by simp
next
  case (Cons kv d)
  have k: "fst kv \<in> fst ` set al" using Cons.prems by simp
  then have 1: "map fst (AList.update (fst kv) (snd kv) al) = map fst al"
    by (simp add: update_keys)
  then have "fst ` set (AList.update (fst kv) (snd kv) al) = fst ` set al"
    by (metis list.set_map)
  with Cons.prems have "fst ` set d \<subseteq> fst ` set (AList.update (fst kv) (snd kv) al)" by simp
  from Cons.IH[OF this] 1 show ?case by simp
qed

lemma merge_append:
  "merge (ms @ ns) = fold (\<lambda>d rv. fold (\<lambda>kv. AList.update (fst kv) (snd kv)) d rv) ns (merge ms)"
  by (simp add: merge_def)

lemma merge_twice: "merge (ms @ [d, d]) = merge (ms @ [d])"
proof -
  let ?u = "fold (\<lambda>kv. AList.update (fst kv) (snd kv)) d"
  let ?x = "merge (ms @ [d])"
  have dist: "distinct (map fst ?x)" and mo: "map_of ?x = map_of (rev (concat (ms @ [d])))"
    using merge_props[of "ms @ [d]"] by simp_all
  have sub: "fst ` set d \<subseteq> fst ` set ?x"
    by (auto simp: dom_merge)
  have keys: "map fst (?u ?x) = map fst ?x"
    by (rule fold_update_keys[OF sub])
  have "map_of (?u ?x) = map_of (rev d @ ?x)"
    using fold_update_props[OF dist, of d] by simp
  also have "\<dots> = map_of ?x"
    by (auto simp: mo map_of_append map_add_def fun_eq_iff split: option.splits)
  finally have "?u ?x = ?x"
    using dist keys by (intro alist_eqI) simp_all
  moreover have "merge (ms @ [d, d]) = ?u ?x"
    by (simp add: merge_append)
  ultimately show ?thesis by simp
qed

lemma sum_distinct_names:
  assumes "distinct (map fst al)"
  shows "(\<Sum>name\<in>fst ` set al. prod_list (the (map_of (rev al) name)))
       = sum_list (map (\<lambda>kv. prod_list (snd kv)) al)"
proof -
  have "sum_list (map (\<lambda>kv. prod_list (snd kv)) al)
      = sum_list (map (\<lambda>k. prod_list (the (map_of (rev al) k))) (map fst al))"
  proof -
    have "map_of (rev al) (fst kv) = Some (snd kv)" if "kv \<in> set al" for kv
      using assms that by (intro map_of_is_SomeI) (simp_all add: rev_map[symmetric])
    then show ?thesis by (simp add: comp_def cong: map_cong)
  qed
  also have "\<dots> = (\<Sum>k\<in>set (map fst al). prod_list (the (map_of (rev al) k)))"
    by (rule sum_list_distinct_conv_sum_set[OF assms])
  finally show ?thesis by simp
qed

text \<open>
  \<^bold>\<open>C9.\<close> The total \<open>create_model\<close> reports is the sum, over the distinct parameter
  names of the composed encoder(s) and the decoder, of the element count (the product of
  the shape) of the parameter the name is bound to (the last binding, should a name
  occur twice). The decoder is in the list once; were it listed once more, for the
  second computation that uses it, the report would be the same. With names that are all
  different the total is the encoders' element counts plus the decoder's.
\<close>

theorem create_model_report_counts_each_name_once:
  assumes "create_model_models cfg words_encoder audio_encoder = Inr models"
  shows "\<exists>lines total.
           create_model_report cfg words_encoder audio_encoder decoder = Inr (lines, total)
         \<and> total = (\<Sum>name\<in>fst ` set (concat (models @ [decoder])).
                      prod_list (the (map_of (rev (concat (models @ [decoder]))) name)))
         \<and> print_parameteters (models @ [decoder, decoder]) = (lines, total)
         \<and> (distinct (map fst (concat (models @ [decoder]))) \<longrightarrow>
              total = sum_list (map (\<lambda>kv. prod_list (snd kv)) (concat models))
                        + sum_list (map (\<lambda>kv. prod_list (snd kv)) decoder))"
proof -
  obtain lines total where p: "print_parameteters (models @ [decoder]) = (lines, total)"
    by (cases "print_parameteters (models @ [decoder])")
  have 1: "create_model_report cfg words_encoder audio_encoder decoder = Inr (lines, total)"
    using assms p by (simp add: create_model_report_def)
  have 2: "total = (\<Sum>name\<in>fst ` set (concat (models @ [decoder])).
                      prod_list (the (map_of (rev (concat (models @ [decoder]))) name)))"
    using print_parameteters_total[of "models @ [decoder]"] p by simp
  have 3: "print_parameteters (models @ [decoder, decoder]) = (lines, total)"
    using p by (simp add: print_parameteters_def merge_twice)
  have 4: "total = sum_list (map (\<lambda>kv. prod_list (snd kv)) (concat models))
                        + sum_list (map (\<lambda>kv. prod_list (snd kv)) decoder)"
    if "distinct (map fst (concat (models @ [decoder])))"
    using sum_distinct_names[OF that] 2 by simp
  from 1 2 3 4 show ?thesis by blast
qed

text \<open>
  The small decoder with both encoders: parameters of 6, 8, 6 and 2 elements, 22 in all,
  also when the decoder is listed twice.
\<close>

theorem create_model_report_counts_each_name_once_witness:
  "\<exists>lines. create_model_report demo_config demo_words_parameters demo_audio_parameters
       demo_decoder_parameters = Inr (lines, 22)
     \<and> print_parameteters [demo_words_parameters, demo_audio_parameters,
          demo_decoder_parameters, demo_decoder_parameters] = (lines, 22)"
proof -
  have m: "create_model_models demo_config demo_words_parameters demo_audio_parameters
      = Inr [demo_words_parameters, demo_audio_parameters]"
    by (simp add: create_model_models_def demo_config_def)
  have d: "distinct (map fst (concat ([demo_words_parameters, demo_audio_parameters]
      @ [demo_decoder_parameters])))"
    by (simp add: demo_words_parameters_def demo_audio_parameters_def
        demo_decoder_parameters_def)
  from create_model_report_counts_each_name_once[OF m, of demo_decoder_parameters]
  obtain lines total where
    r: "create_model_report demo_config demo_words_parameters demo_audio_parameters
       demo_decoder_parameters = Inr (lines, total)"
    and t: "print_parameteters ([demo_words_parameters, demo_audio_parameters]
          @ [demo_decoder_parameters, demo_decoder_parameters]) = (lines, total)"
    and s: "distinct (map fst (concat ([demo_words_parameters, demo_audio_parameters]
      @ [demo_decoder_parameters]))) \<longrightarrow>
        total = sum_list (map (\<lambda>kv. prod_list (snd kv))
                  (concat [demo_words_parameters, demo_audio_parameters]))
            + sum_list (map (\<lambda>kv. prod_list (snd kv)) demo_decoder_parameters)"
    by blast
  from s d have "total = 22"
    by (simp add: demo_words_parameters_def demo_audio_parameters_def
        demo_decoder_parameters_def)
  with r t show ?thesis by auto
qed

end
